theory Spec2Isabelle
  imports Main
begin

unbundle bit_operations_syntax

section \<open>The process environment\<close>

text \<open>
  The environment table of the process maps variable names to their raw text. The
  package reaches it through two calls of Go's \<open>os\<close> package only:
  \<^verbatim>\<open>os.LookupEnv(key)\<close>, which returns the value and whether the variable is set (the
  empty string and \<open>false\<close> when it is not), and \<^verbatim>\<open>os.Unsetenv(key)\<close>, which removes
  the one entry. Every function of the package is modelled by explicit state passing: it
  takes the table and returns the table it leaves behind, next to its Go results. A
  pointer argument \<^verbatim>\<open>output *T\<close> is modelled by the value it points to, passed in and
  returned.
\<close>

type_synonym environ = "string \<rightharpoonup> string"

definition LookupEnv :: "string \<Rightarrow> environ \<Rightarrow> string \<times> bool" where
  "LookupEnv key \<E> = (case \<E> key of None \<Rightarrow> ('''', False) | Some v \<Rightarrow> (v, True))"

definition Unsetenv :: "string \<Rightarrow> environ \<Rightarrow> environ" where
  "Unsetenv key \<E> = \<E>(key := None)"

section \<open>Errors of strconv\<close>

text \<open>
  Go's \<^verbatim>\<open>error\<close> results are \<open>NumError option\<close>, \<open>None\<close> for \<^verbatim>\<open>nil\<close>. Every error the
  package returns is a \<^verbatim>\<open>*strconv.NumError\<close>: the failing function, the input text
  and the cause.
\<close>

datatype err_kind = ErrSyntax | ErrRange | ErrBase int | ErrBitSize int

record NumError =
  Func :: string
  Num :: string
  Err :: err_kind

definition syntaxError :: "string \<Rightarrow> string \<Rightarrow> NumError" where
  "syntaxError fn str = \<lparr>Func = fn, Num = str, Err = ErrSyntax\<rparr>"

definition rangeError :: "string \<Rightarrow> string \<Rightarrow> NumError" where
  "rangeError fn str = \<lparr>Func = fn, Num = str, Err = ErrRange\<rparr>"

definition baseError :: "string \<Rightarrow> string \<Rightarrow> int \<Rightarrow> NumError" where
  "baseError fn str base = \<lparr>Func = fn, Num = str, Err = ErrBase base\<rparr>"

definition bitSizeError :: "string \<Rightarrow> string \<Rightarrow> int \<Rightarrow> NumError" where
  "bitSizeError fn str bitSize = \<lparr>Func = fn, Num = str, Err = ErrBitSize bitSize\<rparr>"

section \<open>strconv.ParseBool\<close>

text \<open>
  The standard library's \<^verbatim>\<open>ParseBool\<close> (strconv/atob.go) is a switch over two lists of
  literals; everything else is a syntax error with the value \<open>false\<close>.
\<close>

definition ParseBool :: "string \<Rightarrow> bool \<times> NumError option" where
  "ParseBool str =
     (if str = ''1'' \<or> str = ''t'' \<or> str = ''T'' \<or> str = ''true'' \<or> str = ''TRUE''
          \<or> str = ''True'' then (True, None)
      else if str = ''0'' \<or> str = ''f'' \<or> str = ''F'' \<or> str = ''false'' \<or> str = ''FALSE''
          \<or> str = ''False'' then (False, None)
      else (False, Some (syntaxError ''ParseBool'' str)))"

section \<open>strconv.ParseUint and strconv.ParseInt\<close>

text \<open>
  The integer accessors delegate to \<^verbatim>\<open>strconv.ParseUint\<close> and \<^verbatim>\<open>strconv.ParseInt\<close> of
  the standard library (strconv/atoi.go, Go 1.13 and later), always with base 0. The
  model follows that source statement by statement. A byte is its value as a natural
  number, a \<^verbatim>\<open>uint64\<close> is a natural number with the wrap-around modulo \<open>2 ^ 64\<close> written
  out, an \<^verbatim>\<open>int64\<close> is an integer with the two's complement wrap-around written out.
  The word size of the platform in bytes, \<^verbatim>\<open>unsafe.Sizeof(int(0))\<close>, is the parameter
  \<open>sz\<close> (4 or 8).
\<close>

definition byte :: "char \<Rightarrow> nat" where
  "byte c = of_char c"

definition lower :: "char \<Rightarrow> nat" where
  \<comment> \<open>\<^verbatim>\<open>c | ('x' - 'X')\<close>\<close>
  "lower c = byte c OR 32"

definition maxUint64 :: nat where
  "maxUint64 = 2 ^ 64 - 1"

definition IntSize :: "int \<Rightarrow> int" where
  \<comment> \<open>\<^verbatim>\<open>strconv.IntSize\<close>, the size in bits of an \<^verbatim>\<open>int\<close>\<close>
  "IntSize sz = sz * 8"

definition intsize :: "int \<Rightarrow> int" where
  \<comment> \<open>\<^verbatim>\<open>int(unsafe.Sizeof(int(0))) * 8\<close>\<close>
  "intsize sz = sz * 8"

definition uintsize :: "int \<Rightarrow> int" where
  \<comment> \<open>\<^verbatim>\<open>int(unsafe.Sizeof(uint(0))) * 8\<close>\<close>
  "uintsize sz = sz * 8"

definition to_int64 :: "nat \<Rightarrow> int" where
  \<comment> \<open>the conversion \<^verbatim>\<open>int64(x)\<close> of a \<^verbatim>\<open>uint64\<close>\<close>
  "to_int64 x = (if x mod 2 ^ 64 < 2 ^ 63 then int (x mod 2 ^ 64) else int (x mod 2 ^ 64) - 2 ^ 64)"

definition wrap_signed :: "int \<Rightarrow> int \<Rightarrow> int" where
  \<comment> \<open>an integer truncated to a signed type of the given width, as \<^verbatim>\<open>int32(x)\<close> does\<close>
  "wrap_signed bits x = (x + 2 ^ nat (bits - 1)) mod 2 ^ nat bits - 2 ^ nat (bits - 1)"

definition wrap_unsigned :: "int \<Rightarrow> nat \<Rightarrow> nat" where
  \<comment> \<open>a natural number truncated to an unsigned type of the given width, as \<^verbatim>\<open>uint32(x)\<close> does\<close>
  "wrap_unsigned bits x = x mod 2 ^ nat bits"

text \<open>
  \<^verbatim>\<open>underscoreOK\<close>: the loop over the number proper, with the flag \<open>hex\<close> and the last
  character class seen, \<open>saw\<close>.
\<close>

primrec underscoreOK_loop :: "bool \<Rightarrow> char \<Rightarrow> string \<Rightarrow> bool" where
  "underscoreOK_loop hex saw [] = (saw \<noteq> CHR ''_'')"
| "underscoreOK_loop hex saw (c # cs) =
     (if (byte CHR ''0'' \<le> byte c \<and> byte c \<le> byte CHR ''9'')
         \<or> (hex \<and> byte CHR ''a'' \<le> lower c \<and> lower c \<le> byte CHR ''f'')
      then underscoreOK_loop hex CHR ''0'' cs
      else if c = CHR ''_'' then
        (if saw \<noteq> CHR ''0'' then False else underscoreOK_loop hex CHR ''_'' cs)
      else if saw = CHR ''_'' then False
      else underscoreOK_loop hex CHR ''!'' cs)"

definition underscoreOK :: "string \<Rightarrow> bool" where
  "underscoreOK s =
     (let s1 = (if length s \<ge> 1 \<and> (hd s = CHR ''-'' \<or> hd s = CHR ''+'') then tl s else s)
      in if length s1 \<ge> 2 \<and> hd s1 = CHR ''0''
            \<and> (lower (s1 ! 1) = byte CHR ''b'' \<or> lower (s1 ! 1) = byte CHR ''o''
                 \<or> lower (s1 ! 1) = byte CHR ''x'')
         then underscoreOK_loop (lower (s1 ! 1) = byte CHR ''x'') CHR ''0'' (drop 2 s1)
         else underscoreOK_loop False CHR ''^'' s1)"

text \<open>
  The digit loop of \<^verbatim>\<open>ParseUint\<close>. Its \<^verbatim>\<open>switch\<close> either skips an underscore, takes
  the value \<open>d\<close> of a digit or a letter, or returns a syntax error: \<open>digit\<close> is the
  value it takes, \<open>None\<close> in the \<^verbatim>\<open>default\<close> case. An error leaves the loop with the
  value and the cause that \<^verbatim>\<open>ParseUint\<close> returns; otherwise the loop ends with the flag
  \<open>underscores\<close> and the number \<open>n\<close>.
\<close>

definition digit :: "char \<Rightarrow> nat option" where
  "digit c =
     (if byte CHR ''0'' \<le> byte c \<and> byte c \<le> byte CHR ''9'' then Some (byte c - byte CHR ''0'')
      else if byte CHR ''a'' \<le> lower c \<and> lower c \<le> byte CHR ''z''
      then Some (lower c - byte CHR ''a'' + 10)
      else None)"

primrec uint_loop ::
  "bool \<Rightarrow> nat \<Rightarrow> nat \<Rightarrow> nat \<Rightarrow> string \<Rightarrow> bool \<Rightarrow> nat \<Rightarrow> (nat \<times> err_kind) + (bool \<times> nat)" where
  "uint_loop base0 base cutoff maxVal [] underscores n = Inr (underscores, n)"
| "uint_loop base0 base cutoff maxVal (c # cs) underscores n =
     (if c = CHR ''_'' \<and> base0 then uint_loop base0 base cutoff maxVal cs True n
      else
        (case digit c of
           None \<Rightarrow> Inl (0, ErrSyntax)
         | Some d \<Rightarrow>
             if d \<ge> base then Inl (0, ErrSyntax)
             else if n \<ge> cutoff then Inl (maxVal, ErrRange)
             else
               (let n' = (n * base) mod 2 ^ 64;
                    n1 = (n' + d) mod 2 ^ 64
                in if n1 < n' \<or> n1 > maxVal then Inl (maxVal, ErrRange)
                   else uint_loop base0 base cutoff maxVal cs underscores n1)))"

text \<open>
  The base selection of \<^verbatim>\<open>ParseUint\<close>: the base to use and the text that remains after
  the prefix, or the error of an invalid base.
\<close>

definition select_base :: "string \<Rightarrow> int \<Rightarrow> NumError + (int \<times> string)" where
  "select_base s base =
     (if 2 \<le> base \<and> base \<le> 36 then Inr (base, s)
      else if base = 0 then
        (if hd s = CHR ''0'' then
           (if length s \<ge> 3 \<and> lower (s ! 1) = byte CHR ''b'' then Inr (2, drop 2 s)
            else if length s \<ge> 3 \<and> lower (s ! 1) = byte CHR ''o'' then Inr (8, drop 2 s)
            else if length s \<ge> 3 \<and> lower (s ! 1) = byte CHR ''x'' then Inr (16, drop 2 s)
            else Inr (8, drop 1 s))
         else Inr (10, s))
      else Inl (baseError ''ParseUint'' s base))"

definition select_bitSize :: "int \<Rightarrow> string \<Rightarrow> int \<Rightarrow> NumError + int" where
  "select_bitSize sz s bitSize =
     (if bitSize = 0 then Inr (IntSize sz)
      else if bitSize < 0 \<or> bitSize > 64 then Inl (bitSizeError ''ParseUint'' s bitSize)
      else Inr bitSize)"

definition ParseUint ::
  "int \<Rightarrow> string \<Rightarrow> int \<Rightarrow> int \<Rightarrow>
   nat \<times> NumError option" where
  "ParseUint sz s base bitSize =
     (if s = [] then (0, Some (syntaxError ''ParseUint'' s))
      else
        (case select_base s base of
           Inl e \<Rightarrow> (0, Some e)
         | Inr (base', s') \<Rightarrow>
             (case select_bitSize sz s bitSize of
                Inl e \<Rightarrow> (0, Some e)
              | Inr bitSize' \<Rightarrow>
                  (let cutoff = maxUint64 div nat base' + 1;
                       maxVal = (2 ^ nat bitSize' mod 2 ^ 64 + 2 ^ 64 - 1) mod 2 ^ 64
                   in (case uint_loop (base = 0) (nat base') cutoff maxVal s' False 0 of
                         Inl (v, k) \<Rightarrow> (v, Some \<lparr>Func = ''ParseUint'', Num = s, Err = k\<rparr>)
                       | Inr (underscores, n) \<Rightarrow>
                           (if underscores \<and> \<not> underscoreOK s
                            then (0, Some (syntaxError ''ParseUint'' s))
                            else (n, None)))))))"

text \<open>
  \<^verbatim>\<open>ParseInt\<close> picks off the sign, converts the rest with \<^verbatim>\<open>ParseUint\<close> and checks
  the range of the signed type. An error of \<^verbatim>\<open>ParseUint\<close> other than a range error is
  returned with the function name and the text replaced.
\<close>

definition ParseInt ::
  "int \<Rightarrow> string \<Rightarrow> int \<Rightarrow> int \<Rightarrow>
   int \<times> NumError option" where
  "ParseInt sz s base bitSize =
     (if s = [] then (0, Some (syntaxError ''ParseInt'' s))
      else
        let neg = (hd s = CHR ''-'');
            s' = (if hd s = CHR ''+'' \<or> hd s = CHR ''-'' then tl s else s)
        in case ParseUint sz s' base bitSize of (un, err) \<Rightarrow>
             if (case err of None \<Rightarrow> False | Some e \<Rightarrow> Err e \<noteq> ErrRange)
             then (0, map_option (\<lambda>e. e\<lparr>Func := ''ParseInt'', Num := s\<rparr>) err)
             else
               let bitSize' = (if bitSize = 0 then IntSize sz else bitSize);
                   cutoff = 2 ^ nat (bitSize' - 1) mod 2 ^ 64
               in if \<not> neg \<and> un \<ge> cutoff
                  then (to_int64 ((cutoff + 2 ^ 64 - 1) mod 2 ^ 64), Some (rangeError ''ParseInt'' s))
                  else if neg \<and> un > cutoff
                  then (wrap_signed 64 (- to_int64 cutoff), Some (rangeError ''ParseInt'' s))
                  else (if neg then wrap_signed 64 (- to_int64 un) else to_int64 un, None))"

section \<open>First revision: Get\<close>

text \<open>
  \<^verbatim>\<open>func Get(key, def string) string\<close> of the first revision: the result is the Go
  return value and the table after the call.
\<close>

definition Get ::
  "string \<Rightarrow> string \<Rightarrow> environ \<Rightarrow> string \<times> environ" where
  "Get key def \<E> =
     (case LookupEnv key \<E> of (env, ok) \<Rightarrow>
        if \<not> ok then (def, \<E>)
        else (env, Unsetenv key \<E>))"

section \<open>Final revision: the assign-style accessors\<close>

text \<open>
  The functions of src/secureenv.go. Each returns its Go error, the value that
  \<^verbatim>\<open>*output\<close> holds when the function has returned, and the environment it leaves. The
  deferred \<^verbatim>\<open>os.Unsetenv(key)\<close> runs when the function returns, on every path after the
  \<^verbatim>\<open>defer\<close> statement: each such path returns the table with the entry removed.
  \<open>Int_native\<close> is the accessor \<^verbatim>\<open>Int\<close>. \<^verbatim>\<open>strconv.ParseFloat\<close> and the conversion
  \<^verbatim>\<open>float32(val)\<close> are parameters of the float accessors, whose value types are
  type variables.
\<close>

definition String ::
  "string \<Rightarrow> string \<Rightarrow> environ \<Rightarrow> string \<times> environ" where
  "String output key \<E> =
     (case LookupEnv key \<E> of (env, ok) \<Rightarrow>
        if \<not> ok then (output, \<E>)
        else (env, Unsetenv key \<E>))"

definition Bool ::
  "bool \<Rightarrow> string \<Rightarrow> environ \<Rightarrow>
   NumError option \<times> bool \<times> environ" where
  "Bool output key \<E> =
     (case LookupEnv key \<E> of (env, ok) \<Rightarrow>
        if \<not> ok then (None, output, \<E>)
        else (case ParseBool env of (val, err) \<Rightarrow>
          if err \<noteq> None then (err, output, Unsetenv key \<E>)
          else (None, val, Unsetenv key \<E>)))"

definition Float64 ::
  "(string \<Rightarrow> int \<Rightarrow> 'f \<times> NumError option) \<Rightarrow> 'f \<Rightarrow>
   string \<Rightarrow> environ \<Rightarrow> NumError option \<times> 'f \<times> environ" where
  "Float64 ParseFloat output key \<E> =
     (case LookupEnv key \<E> of (env, ok) \<Rightarrow>
        if \<not> ok then (None, output, \<E>)
        else (case ParseFloat env 64 of (val, err) \<Rightarrow>
          if err \<noteq> None then (err, output, Unsetenv key \<E>)
          else (None, val, Unsetenv key \<E>)))"

definition Float32 ::
  "(string \<Rightarrow> int \<Rightarrow> 'f \<times> NumError option) \<Rightarrow>
   ('f \<Rightarrow> 'g) \<Rightarrow> 'g \<Rightarrow> string \<Rightarrow> environ \<Rightarrow>
   NumError option \<times> 'g \<times> environ" where
  "Float32 ParseFloat float32_conv output key \<E> =
     (case LookupEnv key \<E> of (env, ok) \<Rightarrow>
        if \<not> ok then (None, output, \<E>)
        else (case ParseFloat env 32 of (val, err) \<Rightarrow>
          if err \<noteq> None then (err, output, Unsetenv key \<E>)
          else (None, float32_conv val, Unsetenv key \<E>)))"

definition Int64 ::
  "int \<Rightarrow> int \<Rightarrow> string \<Rightarrow> environ \<Rightarrow>
   NumError option \<times> int \<times> environ" where
  "Int64 sz output key \<E> =
     (case LookupEnv key \<E> of (env, ok) \<Rightarrow>
        if \<not> ok then (None, output, \<E>)
        else (case ParseInt sz env 0 64 of (val, err) \<Rightarrow>
          if err \<noteq> None then (err, output, Unsetenv key \<E>)
          else (None, val, Unsetenv key \<E>)))"

definition Int32 ::
  "int \<Rightarrow> int \<Rightarrow> string \<Rightarrow> environ \<Rightarrow>
   NumError option \<times> int \<times> environ" where
  "Int32 sz output key \<E> =
     (case LookupEnv key \<E> of (env, ok) \<Rightarrow>
        if \<not> ok then (None, output, \<E>)
        else (case ParseInt sz env 0 32 of (val, err) \<Rightarrow>
          if err \<noteq> None then (err, output, Unsetenv key \<E>)
          else (None, wrap_signed 32 val, Unsetenv key \<E>)))"

definition Int_native ::
  "int \<Rightarrow> int \<Rightarrow> string \<Rightarrow> environ \<Rightarrow>
   NumError option \<times> int \<times> environ" where
  "Int_native sz output key \<E> =
     (case LookupEnv key \<E> of (env, ok) \<Rightarrow>
        if \<not> ok then (None, output, \<E>)
        else (case ParseInt sz env 0 (intsize sz) of (val, err) \<Rightarrow>
          if err \<noteq> None then (err, output, Unsetenv key \<E>)
          else (None, wrap_signed (intsize sz) val, Unsetenv key \<E>)))"

definition Uint64 ::
  "int \<Rightarrow> nat \<Rightarrow> string \<Rightarrow> environ \<Rightarrow>
   NumError option \<times> nat \<times> environ" where
  "Uint64 sz output key \<E> =
     (case LookupEnv key \<E> of (env, ok) \<Rightarrow>
        if \<not> ok then (None, output, \<E>)
        else (case ParseUint sz env 0 64 of (val, err) \<Rightarrow>
          if err \<noteq> None then (err, output, Unsetenv key \<E>)
          else (None, val, Unsetenv key \<E>)))"

definition Uint32 ::
  "int \<Rightarrow> nat \<Rightarrow> string \<Rightarrow> environ \<Rightarrow>
   NumError option \<times> nat \<times> environ" where
  "Uint32 sz output key \<E> =
     (case LookupEnv key \<E> of (env, ok) \<Rightarrow>
        if \<not> ok then (None, output, \<E>)
        else (case ParseUint sz env 0 32 of (val, err) \<Rightarrow>
          if err \<noteq> None then (err, output, Unsetenv key \<E>)
          else (None, wrap_unsigned 32 val, Unsetenv key \<E>)))"

definition Uint ::
  "int \<Rightarrow> nat \<Rightarrow> string \<Rightarrow> environ \<Rightarrow>
   NumError option \<times> nat \<times> environ" where
  "Uint sz output key \<E> =
     (case LookupEnv key \<E> of (env, ok) \<Rightarrow>
        if \<not> ok then (None, output, \<E>)
        else (case ParseUint sz env 0 (uintsize sz) of (val, err) \<Rightarrow>
          if err \<noteq> None then (err, output, Unsetenv key \<E>)
          else (None, wrap_unsigned (uintsize sz) val, Unsetenv key \<E>)))"

section \<open>Middle revision: the Get-style fetchers and the accessors built on them\<close>

text \<open>
  The functions of src/unnamed/part_001. A fetcher returns its Go results (value,
  presence flag, error) and the environment it leaves. The assign-style functions of this
  revision carry the suffix \<open>_mid\<close>, since the final revision reuses their names.
\<close>

definition GetString ::
  "string \<Rightarrow> environ \<Rightarrow> string \<times> bool \<times> environ" where
  "GetString key \<E> =
     (case LookupEnv key \<E> of (env, ok) \<Rightarrow>
        if \<not> ok then (env, ok, \<E>)
        else (env, ok, Unsetenv key \<E>))"

definition String_mid ::
  "string \<Rightarrow> string \<Rightarrow> environ \<Rightarrow> string \<times> environ" where
  "String_mid output key \<E> =
     (case GetString key \<E> of (val, ok, \<E>') \<Rightarrow>
        if ok then (val, \<E>') else (output, \<E>'))"

definition GetBool ::
  "string \<Rightarrow> environ \<Rightarrow>
   bool \<times> bool \<times> NumError option \<times> environ" where
  "GetBool key \<E> =
     (case LookupEnv key \<E> of (env, ok) \<Rightarrow>
        if \<not> ok then (False, ok, None, \<E>)
        else (case ParseBool env of (val, err) \<Rightarrow>
          (val, ok, err, Unsetenv key \<E>)))"

definition Bool_mid ::
  "bool \<Rightarrow> string \<Rightarrow> environ \<Rightarrow>
   NumError option \<times> bool \<times> environ" where
  "Bool_mid output key \<E> =
     (case GetBool key \<E> of (val, ok, err, \<E>') \<Rightarrow>
        if err \<noteq> None then (err, output, \<E>')
        else if ok then (None, val, \<E>')
        else (None, output, \<E>'))"

definition GetFloat64 ::
  "(string \<Rightarrow> int \<Rightarrow> 'f \<times> NumError option) \<Rightarrow>
   string \<Rightarrow> environ \<Rightarrow>
   'f::zero \<times> bool \<times> NumError option \<times> environ" where
  "GetFloat64 ParseFloat key \<E> =
     (case LookupEnv key \<E> of (env, ok) \<Rightarrow>
        if \<not> ok then (0, ok, None, \<E>)
        else (case ParseFloat env 64 of (val, err) \<Rightarrow>
          (val, ok, err, Unsetenv key \<E>)))"

definition Float64_mid ::
  "(string \<Rightarrow> int \<Rightarrow> 'f \<times> NumError option) \<Rightarrow>
   'f::zero \<Rightarrow> string \<Rightarrow> environ \<Rightarrow>
   NumError option \<times> 'f::zero \<times> environ" where
  "Float64_mid ParseFloat output key \<E> =
     (case GetFloat64 ParseFloat key \<E> of (val, ok, err, \<E>') \<Rightarrow>
        if err \<noteq> None then (err, output, \<E>')
        else if ok then (None, val, \<E>')
        else (None, output, \<E>'))"

definition GetFloat32 ::
  "(string \<Rightarrow> int \<Rightarrow> 'f \<times> NumError option) \<Rightarrow>
   ('f \<Rightarrow> 'g) \<Rightarrow> string \<Rightarrow> environ \<Rightarrow>
   'g::zero \<times> bool \<times> NumError option \<times> environ" where
  "GetFloat32 ParseFloat float32_conv key \<E> =
     (case LookupEnv key \<E> of (env, ok) \<Rightarrow>
        if \<not> ok then (0, ok, None, \<E>)
        else (case ParseFloat env 32 of (val, err) \<Rightarrow>
          (float32_conv val, ok, err, Unsetenv key \<E>)))"

definition Float32_mid ::
  "(string \<Rightarrow> int \<Rightarrow> 'f \<times> NumError option) \<Rightarrow>
   ('f \<Rightarrow> 'g) \<Rightarrow> 'g::zero \<Rightarrow> string \<Rightarrow>
   environ \<Rightarrow> NumError option \<times> 'g::zero \<times> environ" where
  "Float32_mid ParseFloat float32_conv output key \<E> =
     (case GetFloat32 ParseFloat float32_conv key \<E> of (val, ok, err, \<E>') \<Rightarrow>
        if err \<noteq> None then (err, output, \<E>')
        else if ok then (None, val, \<E>')
        else (None, output, \<E>'))"

definition GetInt64 ::
  "int \<Rightarrow> string \<Rightarrow> environ \<Rightarrow>
   int \<times> bool \<times> NumError option \<times> environ" where
  "GetInt64 sz key \<E> =
     (case LookupEnv key \<E> of (env, ok) \<Rightarrow>
        if \<not> ok then (0, ok, None, \<E>)
        else (case ParseInt sz env 0 64 of (val, err) \<Rightarrow>
          (val, ok, err, Unsetenv key \<E>)))"

definition Int64_mid ::
  "int \<Rightarrow> int \<Rightarrow> string \<Rightarrow> environ \<Rightarrow>
   NumError option \<times> int \<times> environ" where
  "Int64_mid sz output key \<E> =
     (case GetInt64 sz key \<E> of (val, ok, err, \<E>') \<Rightarrow>
        if err \<noteq> None then (err, output, \<E>')
        else if ok then (None, val, \<E>')
        else (None, output, \<E>'))"

definition GetInt32 ::
  "int \<Rightarrow> string \<Rightarrow> environ \<Rightarrow>
   int \<times> bool \<times> NumError option \<times> environ" where
  "GetInt32 sz key \<E> =
     (case LookupEnv key \<E> of (env, ok) \<Rightarrow>
        if \<not> ok then (0, ok, None, \<E>)
        else (case ParseInt sz env 0 32 of (val, err) \<Rightarrow>
          (wrap_signed 32 val, ok, err, Unsetenv key \<E>)))"

definition Int32_mid ::
  "int \<Rightarrow> int \<Rightarrow> string \<Rightarrow> environ \<Rightarrow>
   NumError option \<times> int \<times> environ" where
  "Int32_mid sz output key \<E> =
     (case GetInt32 sz key \<E> of (val, ok, err, \<E>') \<Rightarrow>
        if err \<noteq> None then (err, output, \<E>')
        else if ok then (None, val, \<E>')
        else (None, output, \<E>'))"

definition GetInt ::
  "int \<Rightarrow> string \<Rightarrow> environ \<Rightarrow>
   int \<times> bool \<times> NumError option \<times> environ" where
  "GetInt sz key \<E> =
     (case LookupEnv key \<E> of (env, ok) \<Rightarrow>
        if \<not> ok then (0, ok, None, \<E>)
        else (case ParseInt sz env 0 (intsize sz) of (val, err) \<Rightarrow>
          (wrap_signed (intsize sz) val, ok, err, Unsetenv key \<E>)))"

definition Int_native_mid ::
  "int \<Rightarrow> int \<Rightarrow> string \<Rightarrow> environ \<Rightarrow>
   NumError option \<times> int \<times> environ" where
  "Int_native_mid sz output key \<E> =
     (case GetInt sz key \<E> of (val, ok, err, \<E>') \<Rightarrow>
        if err \<noteq> None then (err, output, \<E>')
        else if ok then (None, val, \<E>')
        else (None, output, \<E>'))"

definition GetUint64 ::
  "int \<Rightarrow> string \<Rightarrow> environ \<Rightarrow>
   nat \<times> bool \<times> NumError option \<times> environ" where
  "GetUint64 sz key \<E> =
     (case LookupEnv key \<E> of (env, ok) \<Rightarrow>
        if \<not> ok then (0, ok, None, \<E>)
        else (case ParseUint sz env 0 64 of (val, err) \<Rightarrow>
          (val, ok, err, Unsetenv key \<E>)))"

definition Uint64_mid ::
  "int \<Rightarrow> nat \<Rightarrow> string \<Rightarrow> environ \<Rightarrow>
   NumError option \<times> nat \<times> environ" where
  "Uint64_mid sz output key \<E> =
     (case GetUint64 sz key \<E> of (val, ok, err, \<E>') \<Rightarrow>
        if err \<noteq> None then (err, output, \<E>')
        else if ok then (None, val, \<E>')
        else (None, output, \<E>'))"

definition GetUint32 ::
  "int \<Rightarrow> string \<Rightarrow> environ \<Rightarrow>
   nat \<times> bool \<times> NumError option \<times> environ" where
  "GetUint32 sz key \<E> =
     (case LookupEnv key \<E> of (env, ok) \<Rightarrow>
        if \<not> ok then (0, ok, None, \<E>)
        else (case ParseUint sz env 0 32 of (val, err) \<Rightarrow>
          (wrap_unsigned 32 val, ok, err, Unsetenv key \<E>)))"

definition Uint32_mid ::
  "int \<Rightarrow> nat \<Rightarrow> string \<Rightarrow> environ \<Rightarrow>
   NumError option \<times> nat \<times> environ" where
  "Uint32_mid sz output key \<E> =
     (case GetUint32 sz key \<E> of (val, ok, err, \<E>') \<Rightarrow>
        if err \<noteq> None then (err, output, \<E>')
        else if ok then (None, val, \<E>')
        else (None, output, \<E>'))"

definition GetUint ::
  "int \<Rightarrow> string \<Rightarrow> environ \<Rightarrow>
   nat \<times> bool \<times> NumError option \<times> environ" where
  "GetUint sz key \<E> =
     (case LookupEnv key \<E> of (env, ok) \<Rightarrow>
        if \<not> ok then (0, ok, None, \<E>)
        else (case ParseUint sz env 0 (uintsize sz) of (val, err) \<Rightarrow>
          (wrap_unsigned (uintsize sz) val, ok, err, Unsetenv key \<E>)))"

definition Uint_mid ::
  "int \<Rightarrow> nat \<Rightarrow> string \<Rightarrow> environ \<Rightarrow>
   NumError option \<times> nat \<times> environ" where
  "Uint_mid sz output key \<E> =
     (case GetUint sz key \<E> of (val, ok, err, \<E>') \<Rightarrow>
        if err \<noteq> None then (err, output, \<E>')
        else if ok then (None, val, \<E>')
        else (None, output, \<E>'))"

section \<open>Numerals as the integer accessors read them\<close>

text \<open>
  The reading of a numeral stated on its own, in the words of the claim on integer
  parsing as amended: it is compared with \<open>ParseUint\<close> and \<open>ParseInt\<close> below.
\<close>

text \<open>
  The value of a digit character: \<open>0\<close> to \<open>9\<close>, then the letters of either case from 10 on.
\<close>

definition digit_val :: "char \<Rightarrow> nat option" where
  "digit_val c =
     (if byte CHR ''0'' \<le> byte c \<and> byte c \<le> byte CHR ''9'' then Some (byte c - byte CHR ''0'')
      else if byte CHR ''a'' \<le> byte c \<and> byte c \<le> byte CHR ''z'' then Some (byte c - byte CHR ''a'' + 10)
      else if byte CHR ''A'' \<le> byte c \<and> byte c \<le> byte CHR ''Z'' then Some (byte c - byte CHR ''A'' + 10)
      else None)"

text \<open>A character is a digit of the radix \<open>b\<close> when its value is below \<open>b\<close>.\<close>

definition digit_in :: "nat \<Rightarrow> char \<Rightarrow> bool" where
  "digit_in b c = (case digit_val c of None \<Rightarrow> False | Some d \<Rightarrow> d < b)"

text \<open>
  The positional reading of a digit text in the radix \<open>b\<close>, most significant digit
  first, continuing from the number \<open>n\<close> read so far.
\<close>

definition positional :: "nat \<Rightarrow> nat \<Rightarrow> string \<Rightarrow> nat" where
  "positional b n ds = foldl (\<lambda>n c. n * b + (case digit_val c of None \<Rightarrow> 0 | Some d \<Rightarrow> d)) n ds"

text \<open>
  The radix that a text announces and the digits that follow: 2, 8 or 16 after the
  prefix \<open>0b\<close>, \<open>0o\<close> or \<open>0x\<close> (either case, with at least one more character), 8
  after any other leading \<open>0\<close>, 10 otherwise.
\<close>

definition radix :: "string \<Rightarrow> nat \<times> string" where
  "radix s =
     (if 3 \<le> length s \<and> hd s = CHR ''0'' \<and> (s ! 1 = CHR ''b'' \<or> s ! 1 = CHR ''B'')
      then (2, drop 2 s)
      else if 3 \<le> length s \<and> hd s = CHR ''0'' \<and> (s ! 1 = CHR ''o'' \<or> s ! 1 = CHR ''O'')
      then (8, drop 2 s)
      else if 3 \<le> length s \<and> hd s = CHR ''0'' \<and> (s ! 1 = CHR ''x'' \<or> s ! 1 = CHR ''X'')
      then (16, drop 2 s)
      else if s \<noteq> [] \<and> hd s = CHR ''0'' then (8, drop 1 s)
      else (10, s))"

text \<open>
  An unsigned numeral is well formed when it is not empty, every character after the
  prefix is an underscore or a digit of the radix, and its underscores, if it has any, are
  placed as \<^verbatim>\<open>underscoreOK\<close> accepts them.
\<close>

definition well_formed :: "string \<Rightarrow> bool" where
  "well_formed s =
     (s \<noteq> [] \<and>
      (case radix s of (b, ds) \<Rightarrow>
         (\<forall>c\<in>set ds. c = CHR ''_'' \<or> digit_in b c) \<and>
         (CHR ''_'' \<in> set ds \<longrightarrow> underscoreOK s)))"

text \<open>The number a text denotes: its digits, underscores skipped, read in its radix.\<close>

definition reading :: "string \<Rightarrow> nat" where
  "reading s = (case radix s of (b, ds) \<Rightarrow> positional b 0 (filter (\<lambda>c. c \<noteq> CHR ''_'') ds))"

text \<open>
  What an unsigned accessor of the given width is to make of a text: the number, when the
  text is well formed and the number fits the width.
\<close>

definition read_uint :: "int \<Rightarrow> string \<Rightarrow> nat option" where
  "read_uint bits s =
     (if well_formed s \<and> reading s < 2 ^ nat bits then Some (reading s) else None)"

text \<open>The signed accessors accept one leading sign.\<close>

definition sign_stripped :: "string \<Rightarrow> string" where
  "sign_stripped s = (if s \<noteq> [] \<and> (hd s = CHR ''+'' \<or> hd s = CHR ''-'') then tl s else s)"

definition negative :: "string \<Rightarrow> bool" where
  "negative s = (s \<noteq> [] \<and> hd s = CHR ''-'')"

definition signed_reading :: "string \<Rightarrow> int" where
  "signed_reading s =
     (if negative s then - int (reading (sign_stripped s)) else int (reading (sign_stripped s)))"

text \<open>
  What a signed accessor of the given width is to make of a text: the signed number, when
  the text after the sign is well formed and the number fits the width.
\<close>

definition read_int :: "int \<Rightarrow> string \<Rightarrow> int option" where
  "read_int bits s =
     (if s \<noteq> [] \<and> well_formed (sign_stripped s)
         \<and> - (2 ^ nat (bits - 1)) \<le> signed_reading s \<and> signed_reading s < 2 ^ nat (bits - 1)
      then Some (signed_reading s) else None)"

text \<open>Digit strings and their base-10 reading.\<close>

definition decimal_digits :: "string \<Rightarrow> bool" where
  "decimal_digits s =
     (s \<noteq> [] \<and> (\<forall>c\<in>set s. byte CHR ''0'' \<le> byte c \<and> byte c \<le> byte CHR ''9''))"

definition decimal :: "string \<Rightarrow> nat" where
  "decimal s = foldl (\<lambda>n c. 10 * n + (byte c - byte CHR ''0'')) 0 s"

text \<open>The bounds of a width, named for the proofs.\<close>

definition signed_cutoff :: "int \<Rightarrow> nat" where
  "signed_cutoff bits = 2 ^ nat (bits - 1)"

definition max_uint :: "int \<Rightarrow> nat" where
  "max_uint bits = 2 ^ nat bits - 1"

section \<open>Helper facts on the environment\<close>

lemma LookupEnv_absent: "\<E> key = None \<Longrightarrow> LookupEnv key \<E> = ('''', False)"
  by (simp add: LookupEnv_def)

lemma LookupEnv_present: "\<E> key = Some v \<Longrightarrow> LookupEnv key \<E> = (v, True)"
  by (simp add: LookupEnv_def)

lemma Unsetenv_same: "Unsetenv key \<E> key = None"
  by (simp add: Unsetenv_def)

lemma Unsetenv_other: "k \<noteq> key \<Longrightarrow> Unsetenv key \<E> k = \<E> k"
  by (simp add: Unsetenv_def)

lemma Unsetenv_absent: "\<E> key = None \<Longrightarrow> Unsetenv key \<E> = \<E>"
  by (auto simp: Unsetenv_def)

section \<open>The accessors by cases on the lookup\<close>

text \<open>
  Each accessor is determined by the lookup of its key: the absent case and the present
  case, the latter in terms of what the parser returns on the stored text.
\<close>

lemma String_char:
  "String output key \<E> =
     (case \<E> key of None \<Rightarrow> (output, \<E>) | Some v \<Rightarrow> (v, \<E>(key := None)))"
  by (simp add: String_def LookupEnv_def Unsetenv_def split: option.split)

lemma GetString_char:
  "GetString key \<E> =
     (case \<E> key of None \<Rightarrow> ('''', False, \<E>) | Some v \<Rightarrow> (v, True, \<E>(key := None)))"
  by (simp add: GetString_def LookupEnv_def Unsetenv_def split: option.split)

lemma String_mid_eq: "String_mid output key \<E> = String output key \<E>"
  by (simp add: String_mid_def GetString_char String_char split: option.split)

lemma Bool_char:
  "Bool output key \<E> =
     (case \<E> key of
        None \<Rightarrow> (None, output, \<E>)
      | Some v \<Rightarrow>
          (snd (ParseBool v),
           (if snd (ParseBool v) = None then fst (ParseBool v) else output),
           \<E>(key := None)))"
  by (simp add: Bool_def LookupEnv_def Unsetenv_def split: option.split prod.split)

lemma GetBool_char:
  "GetBool key \<E> =
     (case \<E> key of
        None \<Rightarrow> (False, False, None, \<E>)
      | Some v \<Rightarrow> (fst (ParseBool v), True, snd (ParseBool v), \<E>(key := None)))"
  by (simp add: GetBool_def LookupEnv_def Unsetenv_def split: option.split prod.split)

lemma Bool_mid_eq: "Bool_mid output key \<E> = Bool output key \<E>"
  by (simp add: Bool_mid_def GetBool_char Bool_char split: option.split)

lemma Float64_char:
  "Float64 ParseFloat output key \<E> =
     (case \<E> key of
        None \<Rightarrow> (None, output, \<E>)
      | Some v \<Rightarrow>
          (snd (ParseFloat v 64),
           (if snd (ParseFloat v 64) = None then fst (ParseFloat v 64) else output),
           \<E>(key := None)))"
  by (simp add: Float64_def LookupEnv_def Unsetenv_def split: option.split prod.split)

lemma GetFloat64_char:
  "GetFloat64 ParseFloat key \<E> =
     (case \<E> key of
        None \<Rightarrow> (0, False, None, \<E>)
      | Some v \<Rightarrow> (fst (ParseFloat v 64), True, snd (ParseFloat v 64), \<E>(key := None)))"
  by (simp add: GetFloat64_def LookupEnv_def Unsetenv_def split: option.split prod.split)

lemma Float64_mid_eq: "Float64_mid ParseFloat output key \<E> = Float64 ParseFloat output key \<E>"
  by (simp add: Float64_mid_def GetFloat64_char Float64_char split: option.split)

lemma Float32_char:
  "Float32 ParseFloat float32_conv output key \<E> =
     (case \<E> key of
        None \<Rightarrow> (None, output, \<E>)
      | Some v \<Rightarrow>
          (snd (ParseFloat v 32),
           (if snd (ParseFloat v 32) = None then float32_conv (fst (ParseFloat v 32)) else output),
           \<E>(key := None)))"
  by (simp add: Float32_def LookupEnv_def Unsetenv_def split: option.split prod.split)

lemma GetFloat32_char:
  "GetFloat32 ParseFloat float32_conv key \<E> =
     (case \<E> key of
        None \<Rightarrow> (0, False, None, \<E>)
      | Some v \<Rightarrow> (float32_conv (fst (ParseFloat v 32)), True, snd (ParseFloat v 32), \<E>(key := None)))"
  by (simp add: GetFloat32_def LookupEnv_def Unsetenv_def split: option.split prod.split)

lemma Float32_mid_eq: "Float32_mid ParseFloat float32_conv output key \<E> = Float32 ParseFloat float32_conv output key \<E>"
  by (simp add: Float32_mid_def GetFloat32_char Float32_char split: option.split)

lemma Int64_char:
  "Int64 sz output key \<E> =
     (case \<E> key of
        None \<Rightarrow> (None, output, \<E>)
      | Some v \<Rightarrow>
          (snd (ParseInt sz v 0 64),
           (if snd (ParseInt sz v 0 64) = None then fst (ParseInt sz v 0 64) else output),
           \<E>(key := None)))"
  by (simp add: Int64_def LookupEnv_def Unsetenv_def split: option.split prod.split)

lemma GetInt64_char:
  "GetInt64 sz key \<E> =
     (case \<E> key of
        None \<Rightarrow> (0, False, None, \<E>)
      | Some v \<Rightarrow> (fst (ParseInt sz v 0 64), True, snd (ParseInt sz v 0 64), \<E>(key := None)))"
  by (simp add: GetInt64_def LookupEnv_def Unsetenv_def split: option.split prod.split)

lemma Int64_mid_eq: "Int64_mid sz output key \<E> = Int64 sz output key \<E>"
  by (simp add: Int64_mid_def GetInt64_char Int64_char split: option.split)

lemma Int32_char:
  "Int32 sz output key \<E> =
     (case \<E> key of
        None \<Rightarrow> (None, output, \<E>)
      | Some v \<Rightarrow>
          (snd (ParseInt sz v 0 32),
           (if snd (ParseInt sz v 0 32) = None then wrap_signed 32 (fst (ParseInt sz v 0 32)) else output),
           \<E>(key := None)))"
  by (simp add: Int32_def LookupEnv_def Unsetenv_def split: option.split prod.split)

lemma GetInt32_char:
  "GetInt32 sz key \<E> =
     (case \<E> key of
        None \<Rightarrow> (0, False, None, \<E>)
      | Some v \<Rightarrow> (wrap_signed 32 (fst (ParseInt sz v 0 32)), True, snd (ParseInt sz v 0 32), \<E>(key := None)))"
  by (simp add: GetInt32_def LookupEnv_def Unsetenv_def split: option.split prod.split)

lemma Int32_mid_eq: "Int32_mid sz output key \<E> = Int32 sz output key \<E>"
  by (simp add: Int32_mid_def GetInt32_char Int32_char split: option.split)

lemma Int_native_char:
  "Int_native sz output key \<E> =
     (case \<E> key of
        None \<Rightarrow> (None, output, \<E>)
      | Some v \<Rightarrow>
          (snd (ParseInt sz v 0 (intsize sz)),
           (if snd (ParseInt sz v 0 (intsize sz)) = None then wrap_signed (intsize sz) (fst (ParseInt sz v 0 (intsize sz))) else output),
           \<E>(key := None)))"
  by (simp add: Int_native_def LookupEnv_def Unsetenv_def split: option.split prod.split)

lemma GetInt_char:
  "GetInt sz key \<E> =
     (case \<E> key of
        None \<Rightarrow> (0, False, None, \<E>)
      | Some v \<Rightarrow> (wrap_signed (intsize sz) (fst (ParseInt sz v 0 (intsize sz))), True, snd (ParseInt sz v 0 (intsize sz)), \<E>(key := None)))"
  by (simp add: GetInt_def LookupEnv_def Unsetenv_def split: option.split prod.split)

lemma Int_native_mid_eq: "Int_native_mid sz output key \<E> = Int_native sz output key \<E>"
  by (simp add: Int_native_mid_def GetInt_char Int_native_char split: option.split)

lemma Uint64_char:
  "Uint64 sz output key \<E> =
     (case \<E> key of
        None \<Rightarrow> (None, output, \<E>)
      | Some v \<Rightarrow>
          (snd (ParseUint sz v 0 64),
           (if snd (ParseUint sz v 0 64) = None then fst (ParseUint sz v 0 64) else output),
           \<E>(key := None)))"
  by (simp add: Uint64_def LookupEnv_def Unsetenv_def split: option.split prod.split)

lemma GetUint64_char:
  "GetUint64 sz key \<E> =
     (case \<E> key of
        None \<Rightarrow> (0, False, None, \<E>)
      | Some v \<Rightarrow> (fst (ParseUint sz v 0 64), True, snd (ParseUint sz v 0 64), \<E>(key := None)))"
  by (simp add: GetUint64_def LookupEnv_def Unsetenv_def split: option.split prod.split)

lemma Uint64_mid_eq: "Uint64_mid sz output key \<E> = Uint64 sz output key \<E>"
  by (simp add: Uint64_mid_def GetUint64_char Uint64_char split: option.split)

lemma Uint32_char:
  "Uint32 sz output key \<E> =
     (case \<E> key of
        None \<Rightarrow> (None, output, \<E>)
      | Some v \<Rightarrow>
          (snd (ParseUint sz v 0 32),
           (if snd (ParseUint sz v 0 32) = None then wrap_unsigned 32 (fst (ParseUint sz v 0 32)) else output),
           \<E>(key := None)))"
  by (simp add: Uint32_def LookupEnv_def Unsetenv_def split: option.split prod.split)

lemma GetUint32_char:
  "GetUint32 sz key \<E> =
     (case \<E> key of
        None \<Rightarrow> (0, False, None, \<E>)
      | Some v \<Rightarrow> (wrap_unsigned 32 (fst (ParseUint sz v 0 32)), True, snd (ParseUint sz v 0 32), \<E>(key := None)))"
  by (simp add: GetUint32_def LookupEnv_def Unsetenv_def split: option.split prod.split)

lemma Uint32_mid_eq: "Uint32_mid sz output key \<E> = Uint32 sz output key \<E>"
  by (simp add: Uint32_mid_def GetUint32_char Uint32_char split: option.split)

lemma Uint_char:
  "Uint sz output key \<E> =
     (case \<E> key of
        None \<Rightarrow> (None, output, \<E>)
      | Some v \<Rightarrow>
          (snd (ParseUint sz v 0 (uintsize sz)),
           (if snd (ParseUint sz v 0 (uintsize sz)) = None then wrap_unsigned (uintsize sz) (fst (ParseUint sz v 0 (uintsize sz))) else output),
           \<E>(key := None)))"
  by (simp add: Uint_def LookupEnv_def Unsetenv_def split: option.split prod.split)

lemma GetUint_char:
  "GetUint sz key \<E> =
     (case \<E> key of
        None \<Rightarrow> (0, False, None, \<E>)
      | Some v \<Rightarrow> (wrap_unsigned (uintsize sz) (fst (ParseUint sz v 0 (uintsize sz))), True, snd (ParseUint sz v 0 (uintsize sz)), \<E>(key := None)))"
  by (simp add: GetUint_def LookupEnv_def Unsetenv_def split: option.split prod.split)

lemma Uint_mid_eq: "Uint_mid sz output key \<E> = Uint sz output key \<E>"
  by (simp add: Uint_mid_def GetUint_char Uint_char split: option.split)

section \<open>The parsers of strconv\<close>

lemma uint_loop_Inr_le:
  "uint_loop b0 base cutoff maxVal cs us n = Inr (us', n') \<Longrightarrow> n \<le> maxVal \<Longrightarrow> n' \<le> maxVal"
proof (induction cs arbitrary: us n)
  case Nil
  then show ?case by simp
next
  case (Cons c cs)
  show ?case
  proof (cases "c = CHR ''_'' \<and> b0")
    case True
    with Cons.prems have "uint_loop b0 base cutoff maxVal cs True n = Inr (us', n')" by simp
    from Cons.IH [OF this Cons.prems(2)] show ?thesis .
  next
    case False
    with Cons.prems(1) obtain d where d: "digit c = Some d"
      by (cases "digit c") simp_all
    define n1 where "n1 = (n * base mod 2 ^ 64 + d) mod 2 ^ 64"
    from Cons.prems(1) False d
    have "n1 \<le> maxVal \<and> uint_loop b0 base cutoff maxVal cs us n1 = Inr (us', n')"
      by (simp add: Let_def n1_def split: if_splits)
    then show ?thesis using Cons.IH by blast
  qed
qed

lemma uint_loop_Inl_shape:
  "uint_loop b0 base cutoff maxVal cs us n = Inl (v, k) \<Longrightarrow>
     (v = 0 \<and> k = ErrSyntax) \<or> (v = maxVal \<and> k = ErrRange)"
proof (induction cs arbitrary: us n)
  case Nil
  then show ?case by simp
next
  case (Cons c cs)
  show ?case
  proof (cases "c = CHR ''_'' \<and> b0")
    case True
    with Cons.prems have "uint_loop b0 base cutoff maxVal cs True n = Inl (v, k)" by simp
    from Cons.IH [OF this] show ?thesis .
  next
    case False
    show ?thesis
    proof (cases "digit c")
      case None
      with Cons.prems False show ?thesis by simp
    next
      case (Some d)
      define n1 where "n1 = (n * base mod 2 ^ 64 + d) mod 2 ^ 64"
      from Cons.prems False Some
      have "(v = 0 \<and> k = ErrSyntax) \<or> (v = maxVal \<and> k = ErrRange)
            \<or> uint_loop b0 base cutoff maxVal cs us n1 = Inl (v, k)"
        by (simp add: Let_def n1_def split: if_splits)
      then show ?thesis using Cons.IH by blast
    qed
  qed
qed

lemma select_base_0: "\<exists>b s'. select_base s 0 = Inr (b, s') \<and> b \<in> {2, 8, 10, 16}"
  by (simp add: select_base_def)

lemma ParseUint_shape:
  assumes "bits = 32 \<or> bits = 64" and "ParseUint sz s 0 bits = (v, e)"
  shows "(e = None \<and> v < 2 ^ nat bits) \<or>
         (e = Some (syntaxError ''ParseUint'' s) \<and> v = 0) \<or>
         (e = Some (rangeError ''ParseUint'' s) \<and> v = 2 ^ nat bits - 1)"
proof (cases "s = []")
  case True
  with assms show ?thesis by (simp add: ParseUint_def)
next
  case False
  obtain b s' where sb: "select_base s 0 = Inr (b, s')"
    using select_base_0 by blast
  have bs: "select_bitSize sz s bits = Inr bits"
    using assms(1) by (auto simp: select_bitSize_def)
  define maxVal :: nat where "maxVal = 2 ^ nat bits - 1"
  have mv: "((2::nat) ^ nat bits mod 2 ^ 64 + 2 ^ 64 - 1) mod 2 ^ 64 = maxVal"
    using assms(1) by (auto simp: maxVal_def)
  have pos: "maxVal < 2 ^ nat bits" using assms(1) by (auto simp: maxVal_def)
  show ?thesis
  proof (cases "uint_loop True (nat b) (maxUint64 div nat b + 1) maxVal s' False 0")
    case (Inl p)
    obtain v' k where p: "p = (v', k)" by (cases p)
    from uint_loop_Inl_shape [OF Inl [unfolded p]]
    have "(v' = 0 \<and> k = ErrSyntax) \<or> (v' = maxVal \<and> k = ErrRange)" .
    with assms(2) False sb bs mv Inl p show ?thesis
      by (auto simp: ParseUint_def Let_def syntaxError_def rangeError_def maxVal_def)
  next
    case (Inr q)
    obtain us n where q: "q = (us, n)" by (cases q)
    from uint_loop_Inr_le [OF Inr [unfolded q]] have "n \<le> maxVal" by simp
    with pos have "n < 2 ^ nat bits" by simp
    with assms(2) False sb bs mv Inr q show ?thesis
      by (auto simp: ParseUint_def Let_def split: if_splits)
  qed
qed

lemma neg_wrap64: "un \<le> 2 ^ 63 \<Longrightarrow> wrap_signed 64 (- to_int64 un) = - int un"
proof (cases "un = 2 ^ 63")
  case True
  then show ?thesis by (simp add: wrap_signed_def to_int64_def)
next
  case False
  assume "un \<le> 2 ^ 63"
  with False have lt: "un < 2 ^ 63" by simp
  then have "to_int64 un = int un" by (simp add: to_int64_def)
  moreover have "(- int un + 2 ^ 63) mod 2 ^ 64 = - int un + 2 ^ 63"
    using lt by (intro mod_pos_pos_trivial) auto
  ultimately show ?thesis by (simp add: wrap_signed_def)
qed

lemma to_int64_small: "un < 2 ^ 63 \<Longrightarrow> to_int64 un = int un"
  by (simp add: to_int64_def)

lemma signed_cutoff_simps: "signed_cutoff 32 = 2 ^ 31" "signed_cutoff 64 = 2 ^ 63"
  by (simp_all add: signed_cutoff_def)

lemma ParseInt_tail:
  assumes "s \<noteq> []" and "bits = 32 \<or> bits = 64"
    and "ParseUint sz (sign_stripped s) 0 bits = (un, err)"
    and "case err of None \<Rightarrow> True | Some e \<Rightarrow> Err e = ErrRange"
  shows "ParseInt sz s 0 bits =
     (if hd s \<noteq> CHR ''-'' \<and> signed_cutoff bits \<le> un
      then (int (signed_cutoff bits) - 1, Some (rangeError ''ParseInt'' s))
      else if hd s = CHR ''-'' \<and> signed_cutoff bits < un
      then (- int (signed_cutoff bits), Some (rangeError ''ParseInt'' s))
      else (if hd s = CHR ''-'' then wrap_signed 64 (- to_int64 un) else to_int64 un, None))"
proof -
  have c1: "to_int64 2147483647 = 2147483647" "to_int64 9223372036854775807 = 9223372036854775807"
    by (simp_all add: to_int64_def)
  have c2: "wrap_signed 64 (- to_int64 2147483648) = - 2147483648"
    "wrap_signed 64 (- to_int64 9223372036854775808) = - 9223372036854775808"
    by (simp_all add: to_int64_def wrap_signed_def)
  have nr: "\<not> (case err of None \<Rightarrow> False | Some e \<Rightarrow> Err e \<noteq> ErrRange)"
    using assms(4) by (cases err) simp_all
  have pu: "ParseUint sz (if hd s = CHR ''+'' \<or> hd s = CHR ''-'' then tl s else s) 0 bits = (un, err)"
    using assms(1,3) by (simp add: sign_stripped_def)
  from assms(2) show ?thesis
  proof
    assume "bits = 32"
    then show ?thesis
      using assms(1) nr pu by (simp add: ParseInt_def Let_def signed_cutoff_simps c1 c2)
  next
    assume "bits = 64"
    then show ?thesis
      using assms(1) nr pu by (simp add: ParseInt_def Let_def signed_cutoff_simps c1 c2)
  qed
qed

lemma ParseInt_of_syntax:
  assumes "s \<noteq> []"
    and "ParseUint sz (sign_stripped s) 0 bits = (un, Some (syntaxError fn t))"
  shows "ParseInt sz s 0 bits = (0, Some (syntaxError ''ParseInt'' s))"
proof -
  have pu: "ParseUint sz (if hd s = CHR ''+'' \<or> hd s = CHR ''-'' then tl s else s) 0 bits
      = (un, Some (syntaxError fn t))"
    using assms by (simp add: sign_stripped_def)
  show ?thesis using assms(1) by (simp add: ParseInt_def Let_def pu syntaxError_def)
qed

lemma cutoff_facts:
  assumes "bits = 32 \<or> bits = 64"
  shows "signed_cutoff bits \<le> 2 ^ 63" "signed_cutoff bits < 2 ^ nat bits - 1"
    "2 ^ nat bits = 2 * signed_cutoff bits"
  using assms by (auto simp: signed_cutoff_def)

lemma ParseInt_of_range:
  assumes "s \<noteq> []" and "bits = 32 \<or> bits = 64"
    and "ParseUint sz (sign_stripped s) 0 bits = (2 ^ nat bits - 1, Some (rangeError fn t))"
  shows "ParseInt sz s 0 bits =
     (if hd s = CHR ''-'' then - int (signed_cutoff bits) else int (signed_cutoff bits) - 1,
      Some (rangeError ''ParseInt'' s))"
proof -
  have "case Some (rangeError fn t) of None \<Rightarrow> True | Some e \<Rightarrow> Err e = ErrRange"
    by (simp add: rangeError_def)
  from ParseInt_tail [OF assms(1,2,3) this] cutoff_facts(2) [OF assms(2)]
  show ?thesis by simp
qed

lemma ParseInt_of_ok:
  assumes "s \<noteq> []" and "bits = 32 \<or> bits = 64"
    and "ParseUint sz (sign_stripped s) 0 bits = (un, None)"
  shows "ParseInt sz s 0 bits =
     (if hd s \<noteq> CHR ''-'' \<and> signed_cutoff bits \<le> un
      then (int (signed_cutoff bits) - 1, Some (rangeError ''ParseInt'' s))
      else if hd s = CHR ''-'' \<and> signed_cutoff bits < un
      then (- int (signed_cutoff bits), Some (rangeError ''ParseInt'' s))
      else (if hd s = CHR ''-'' then - int un else int un, None))"
proof -
  have t: "ParseInt sz s 0 bits =
     (if hd s \<noteq> CHR ''-'' \<and> signed_cutoff bits \<le> un
      then (int (signed_cutoff bits) - 1, Some (rangeError ''ParseInt'' s))
      else if hd s = CHR ''-'' \<and> signed_cutoff bits < un
      then (- int (signed_cutoff bits), Some (rangeError ''ParseInt'' s))
      else (if hd s = CHR ''-'' then wrap_signed 64 (- to_int64 un) else to_int64 un, None))"
    by (rule ParseInt_tail [OF assms(1,2,3)]) simp
  have le: "signed_cutoff bits \<le> 2 ^ 63" by (rule cutoff_facts(1) [OF assms(2)])
  have a: "wrap_signed 64 (- to_int64 un) = - int un" if "\<not> signed_cutoff bits < un"
    using that le by (intro neg_wrap64) simp
  have b: "to_int64 un = int un" if "\<not> signed_cutoff bits \<le> un"
    using that le by (intro to_int64_small) simp
  show ?thesis
  proof (cases "hd s = CHR ''-''")
    case True
    then show ?thesis unfolding t using a by simp
  next
    case False
    then show ?thesis unfolding t using b by simp
  qed
qed

lemma signed_cutoff_pos: "0 < signed_cutoff bits"
  by (simp add: signed_cutoff_def)

lemma ParseInt_shape:
  assumes "bits = 32 \<or> bits = 64" and "ParseInt sz s 0 bits = (v, e)"
  shows "(e = None \<and> - int (signed_cutoff bits) \<le> v \<and> v < int (signed_cutoff bits)) \<or>
         (e = Some (syntaxError ''ParseInt'' s) \<and> v = 0) \<or>
         (e = Some (rangeError ''ParseInt'' s) \<and>
            (v = int (signed_cutoff bits) - 1 \<or> v = - int (signed_cutoff bits)))"
proof (cases "s = []")
  case True
  with assms show ?thesis by (simp add: ParseInt_def)
next
  case False
  obtain un err where pu: "ParseUint sz (sign_stripped s) 0 bits = (un, err)"
    by (cases "ParseUint sz (sign_stripped s) 0 bits")
  from ParseUint_shape [OF assms(1) pu]
  consider (ok) "err = None"
    | (syn) "err = Some (syntaxError ''ParseUint'' (sign_stripped s))"
    | (rng) "err = Some (rangeError ''ParseUint'' (sign_stripped s))" "un = 2 ^ nat bits - 1"
    by blast
  then show ?thesis
  proof cases
    case syn
    from ParseInt_of_syntax [OF False pu [unfolded syn]] assms(2) show ?thesis by simp
  next
    case rng
    from ParseInt_of_range [OF False assms(1) pu [unfolded rng]] assms(2) show ?thesis
      by (auto split: if_splits)
  next
    case ok
    from ParseInt_of_ok [OF False assms(1) pu [unfolded ok]] assms(2)
      signed_cutoff_pos [of bits]
    show ?thesis
      by (auto split: if_splits)
  qed
qed

lemma or32: "(x::nat) OR 32 = (if bit x 5 then x else x + 32)"
proof -
  have "x OR 32 = x OR push_bit 5 1" by simp
  also have "\<dots> = set_bit 5 x" by (simp add: set_bit_eq_or or.commute)
  also have "\<dots> = (if bit x 5 then x else x + 32)"
    by (simp add: set_bit_eq)
  finally show ?thesis .
qed

lemma odd_below_8: "q < 8 \<Longrightarrow> odd q \<longleftrightarrow> q = 1 \<or> q = 3 \<or> q = 5 \<or> q = (7::nat)"
proof -
  assume "q < 8"
  then consider "q = 0" | "q = 1" | "q = 2" | "q = 3" | "q = 4" | "q = 5" | "q = 6" | "q = 7"
    by linarith
  then show ?thesis by cases simp_all
qed

lemma bit5:
  assumes "x < 256"
  shows "bit (x::nat) 5 \<longleftrightarrow>
     (32 \<le> x \<and> x < 64) \<or> (96 \<le> x \<and> x < 128) \<or> (160 \<le> x \<and> x < 192) \<or> 224 \<le> x"
proof -
  have q: "x div 32 < 8" using assms by simp
  have "bit x 5 \<longleftrightarrow> odd (x div 32)" by (simp add: bit_iff_odd)
  also have "\<dots> \<longleftrightarrow> x div 32 = 1 \<or> x div 32 = 3 \<or> x div 32 = 5 \<or> x div 32 = 7"
    by (rule odd_below_8 [OF q])
  also have "\<dots> \<longleftrightarrow>
     (32 \<le> x \<and> x < 64) \<or> (96 \<le> x \<and> x < 128) \<or> (160 \<le> x \<and> x < 192) \<or> 224 \<le> x"
    using assms by linarith
  finally show ?thesis .
qed

lemma byte_lt: "byte c < 256"
  unfolding byte_def by (metis of_char_mod_256 mod_less_divisor zero_less_numeral)

lemma byte_eq_iff: "byte c = byte d \<longleftrightarrow> c = d"
  by (simp add: byte_def)

lemma lower_alt:
  "lower c =
     (if (32 \<le> byte c \<and> byte c < 64) \<or> (96 \<le> byte c \<and> byte c < 128)
         \<or> (160 \<le> byte c \<and> byte c < 192) \<or> 224 \<le> byte c
      then byte c else byte c + 32)"
  using bit5 [OF byte_lt [of c]] by (simp add: lower_def or32)

lemma byte_lits:
  "byte CHR ''0'' = 48" "byte CHR ''9'' = 57" "byte CHR ''a'' = 97" "byte CHR ''z'' = 122"
  "byte CHR ''A'' = 65" "byte CHR ''Z'' = 90" "byte CHR ''_'' = 95" "byte CHR ''f'' = 102"
  "byte CHR ''b'' = 98" "byte CHR ''o'' = 111" "byte CHR ''x'' = 120"
  "byte CHR ''B'' = 66" "byte CHR ''O'' = 79" "byte CHR ''X'' = 88"
  by (simp_all add: byte_def)

lemma lower_letter:
  "(97 \<le> lower c \<and> lower c \<le> 122) \<longleftrightarrow>
     (65 \<le> byte c \<and> byte c \<le> 90) \<or> (97 \<le> byte c \<and> byte c \<le> 122)"
  unfolding lower_alt by auto

lemma lower_of_upper: "65 \<le> byte c \<Longrightarrow> byte c \<le> 90 \<Longrightarrow> lower c = byte c + 32"
  unfolding lower_alt by auto

lemma lower_of_lower: "97 \<le> byte c \<Longrightarrow> byte c \<le> 122 \<Longrightarrow> lower c = byte c"
  unfolding lower_alt by auto

lemma digit_eq: "digit c = digit_val c"
proof -
  consider (dec) "48 \<le> byte c" "byte c \<le> 57"
    | (low) "97 \<le> byte c" "byte c \<le> 122"
    | (upp) "65 \<le> byte c" "byte c \<le> 90"
    | (non) "\<not> (48 \<le> byte c \<and> byte c \<le> 57)" "\<not> (97 \<le> byte c \<and> byte c \<le> 122)"
        "\<not> (65 \<le> byte c \<and> byte c \<le> 90)"
    by blast
  then show ?thesis
  proof cases
    case dec
    then show ?thesis by (simp add: digit_def digit_val_def byte_lits)
  next
    case low
    then have "lower c = byte c" by (rule lower_of_lower)
    with low show ?thesis by (simp add: digit_def digit_val_def byte_lits)
  next
    case upp
    then have "lower c = byte c + 32" by (rule lower_of_upper)
    with upp show ?thesis by (simp add: digit_def digit_val_def byte_lits)
  next
    case non
    with lower_letter [of c] have "\<not> (97 \<le> lower c \<and> lower c \<le> 122)" by blast
    with non show ?thesis by (simp add: digit_def digit_val_def byte_lits)
  qed
qed

lemma digit_val_underscore: "digit_val CHR ''_'' = None"
  by (simp add: digit_val_def byte_def)

lemma uint_loop_Cons:
  "uint_loop b0 base cutoff maxVal (c # cs) us n =
     (if c = CHR ''_'' \<and> b0 then uint_loop b0 base cutoff maxVal cs True n
      else case digit_val c of
        None \<Rightarrow> Inl (0, ErrSyntax)
      | Some d \<Rightarrow>
          if d \<ge> base then Inl (0, ErrSyntax)
          else if n \<ge> cutoff then Inl (maxVal, ErrRange)
          else if (n * base mod 2 ^ 64 + d) mod 2 ^ 64 < n * base mod 2 ^ 64
                  \<or> (n * base mod 2 ^ 64 + d) mod 2 ^ 64 > maxVal
               then Inl (maxVal, ErrRange)
               else uint_loop b0 base cutoff maxVal cs us ((n * base mod 2 ^ 64 + d) mod 2 ^ 64))"
  by (simp only: uint_loop.simps Let_def digit_eq)

declare uint_loop.simps(2) [simp del]

lemma positional_ge: "n \<le> positional b n ds" if "1 \<le> b"
  using that unfolding positional_def
proof (induction ds arbitrary: n)
  case Nil
  then show ?case by simp
next
  case (Cons c ds)
  have "n \<le> n * b" using Cons.prems by simp
  also have "\<dots> \<le> n * b + (case digit_val c of None \<Rightarrow> 0 | Some d \<Rightarrow> d)" by simp
  also have "\<dots> \<le> foldl (\<lambda>n c. n * b + (case digit_val c of None \<Rightarrow> 0 | Some d \<Rightarrow> d))
       (n * b + (case digit_val c of None \<Rightarrow> 0 | Some d \<Rightarrow> d)) ds"
    using Cons.IH [OF Cons.prems] .
  finally show ?case by simp
qed

lemma positional_Cons:
  "positional b n (c # ds) = positional b (n * b + (case digit_val c of None \<Rightarrow> 0 | Some d \<Rightarrow> d)) ds"
  by (simp add: positional_def)

lemma positional_Nil: "positional b n [] = n"
  by (simp add: positional_def)

lemma cutoff_iff:
  assumes "0 < base"
  shows "maxUint64 div base + 1 \<le> n \<longleftrightarrow> 2 ^ 64 \<le> n * base"
proof -
  have "maxUint64 div base + 1 \<le> n \<longleftrightarrow> maxUint64 div base < n" by auto
  also have "\<dots> \<longleftrightarrow> maxUint64 < n * base"
    using assms by (simp add: div_less_iff_less_mult)
  also have "\<dots> \<longleftrightarrow> 2 ^ 64 \<le> n * base" unfolding maxUint64_def by auto
  finally show ?thesis .
qed

lemma cutoff_iff_Suc:
  "0 < base \<Longrightarrow> Suc (maxUint64 div base) \<le> n \<longleftrightarrow> 2 ^ 64 \<le> n * base"
  using cutoff_iff [of base n] by simp

text \<open>One step of the loop on a digit, in terms of the exact number.\<close>

lemma uint_loop_digit_step:
  assumes "0 < base" "maxVal < 2 ^ 64" "digit_val c = Some d" "d < base" "d < 2 ^ 64"
  shows "uint_loop b0 base (Suc (maxUint64 div base)) maxVal (c # cs) us n =
     (if n * base + d \<le> maxVal
      then uint_loop b0 base (Suc (maxUint64 div base)) maxVal cs us (n * base + d)
      else Inl (maxVal, ErrRange))"
proof (cases "2 ^ 64 \<le> n * base")
  case True
  have nu: "c \<noteq> CHR ''_''" using assms(3) digit_val_underscore by auto
  from True have "\<not> n * base + d \<le> maxVal" using assms(2) by simp
  with True assms nu show ?thesis
    by (simp add: uint_loop_Cons cutoff_iff_Suc)
next
  case False
  have nu: "c \<noteq> CHR ''_''" using assms(3) digit_val_underscore by auto
  from False have nb: "n * base mod 2 ^ 64 = n * base" by simp
  have cut: "\<not> Suc (maxUint64 div base) \<le> n" using False assms(1) by (simp add: cutoff_iff_Suc)
  show ?thesis
  proof (cases "2 ^ 64 \<le> n * base + d")
    case True
    have "(n * base + d) mod 2 ^ 64 = n * base + d - 2 ^ 64"
      using True False assms(5) by (simp add: mod_if)
    moreover have "n * base + d - 2 ^ 64 < n * base" using True assms(5) by simp
    moreover have "\<not> n * base + d \<le> maxVal" using True assms(2) by simp
    ultimately show ?thesis using assms cut nb nu
      by (simp add: uint_loop_Cons)
  next
    case False
    then have "(n * base + d) mod 2 ^ 64 = n * base + d" by simp
    then show ?thesis using assms cut nb nu
      by (simp add: uint_loop_Cons)
  qed
qed

lemma uint_loop_wf:
  assumes "0 < base" "maxVal < 2 ^ 64"
    and "\<forall>c\<in>set cs. c = CHR ''_'' \<or> digit_in base c"
    and "n \<le> maxVal"
  shows "uint_loop True base (Suc (maxUint64 div base)) maxVal cs us n =
     (if positional base n (filter (\<lambda>c. c \<noteq> CHR ''_'') cs) \<le> maxVal
      then Inr (us \<or> CHR ''_'' \<in> set cs, positional base n (filter (\<lambda>c. c \<noteq> CHR ''_'') cs))
      else Inl (maxVal, ErrRange))"
  using assms(3,4)
proof (induction cs arbitrary: us n)
  case Nil
  then show ?case by (simp add: positional_Nil)
next
  case (Cons c cs)
  have rest: "\<forall>c\<in>set cs. c = CHR ''_'' \<or> digit_in base c" using Cons.prems(1) by simp
  show ?case
  proof (cases "c = CHR ''_''")
    case True
    have "uint_loop True base (Suc (maxUint64 div base)) maxVal (c # cs) us n =
          uint_loop True base (Suc (maxUint64 div base)) maxVal cs True n"
      using True by (simp add: uint_loop_Cons)
    also note Cons.IH [OF rest Cons.prems(2), of True]
    finally show ?thesis using True by simp
  next
    case False
    with Cons.prems(1) have "digit_in base c" by simp
    then obtain d where d: "digit_val c = Some d" "d < base"
      by (auto simp: digit_in_def split: option.splits)
    have d36: "d < 2 ^ 64"
      using d(1) byte_lt [of c] by (auto simp: digit_val_def byte_lits split: if_splits)
    let ?m = "n * base + d"
    have step: "uint_loop True base (Suc (maxUint64 div base)) maxVal (c # cs) us n =
       (if ?m \<le> maxVal then uint_loop True base (Suc (maxUint64 div base)) maxVal cs us ?m
        else Inl (maxVal, ErrRange))"
      by (rule uint_loop_digit_step [OF assms(1,2) d d36])
    have pos: "positional base n (filter (\<lambda>c. c \<noteq> CHR ''_'') (c # cs)) =
               positional base ?m (filter (\<lambda>c. c \<noteq> CHR ''_'') cs)"
      using False d(1) by (simp add: positional_Cons)
    show ?thesis
    proof (cases "?m \<le> maxVal")
      case True
      from Cons.IH [OF rest True, of us] step pos True False show ?thesis by simp
    next
      case nle: False
      have "?m \<le> positional base ?m (filter (\<lambda>c. c \<noteq> CHR ''_'') cs)"
        using positional_ge assms(1) by simp
      with nle have "\<not> positional base ?m (filter (\<lambda>c. c \<noteq> CHR ''_'') cs) \<le> maxVal" by simp
      with step pos nle show ?thesis by simp
    qed
  qed
qed

lemma uint_loop_bad:
  assumes "\<exists>c\<in>set cs. c \<noteq> CHR ''_'' \<and> \<not> digit_in base c"
  shows "\<exists>p. uint_loop True base cutoff maxVal cs us n = Inl p"
  using assms
proof (induction cs arbitrary: us n)
  case Nil
  then show ?case by simp
next
  case (Cons c cs)
  show ?case
  proof (cases "c = CHR ''_''")
    case True
    with Cons.prems have "\<exists>c\<in>set cs. c \<noteq> CHR ''_'' \<and> \<not> digit_in base c" by simp
    from Cons.IH [OF this] True show ?thesis by (simp add: uint_loop_Cons)
  next
    case False
    show ?thesis
    proof (cases "digit_in base c")
      case True
      with False Cons.prems have "\<exists>c\<in>set cs. c \<noteq> CHR ''_'' \<and> \<not> digit_in base c" by auto
      from Cons.IH [OF this] have ih: "\<And>us n. \<exists>p. uint_loop True base cutoff maxVal cs us n = Inl p" .
      from True obtain d where d: "digit_val c = Some d" "d < base"
        by (auto simp: digit_in_def split: option.splits)
      with False ih show ?thesis by (simp add: uint_loop_Cons)
    next
      case nd: False
      then show ?thesis using False
        by (cases "digit_val c") (simp_all add: uint_loop_Cons digit_in_def)
    qed
  qed
qed

lemma lower_eq_letter:
  assumes "97 \<le> byte l" "byte l \<le> 122" "byte u + 32 = byte l"
  shows "lower c = byte l \<longleftrightarrow> c = l \<or> c = u"
proof -
  have "lower c = byte l \<longleftrightarrow> byte c = byte l \<or> byte c = byte u"
    unfolding lower_alt using assms by auto
  then show ?thesis by (simp add: byte_eq_iff)
qed

lemma lower_eq_b: "lower c = byte CHR ''b'' \<longleftrightarrow> c = CHR ''b'' \<or> c = CHR ''B''"
  by (rule lower_eq_letter) (simp_all add: byte_lits)

lemma lower_eq_o: "lower c = byte CHR ''o'' \<longleftrightarrow> c = CHR ''o'' \<or> c = CHR ''O''"
  by (rule lower_eq_letter) (simp_all add: byte_lits)

lemma lower_eq_x: "lower c = byte CHR ''x'' \<longleftrightarrow> c = CHR ''x'' \<or> c = CHR ''X''"
  by (rule lower_eq_letter) (simp_all add: byte_lits)

lemma select_base_radix:
  "s \<noteq> [] \<Longrightarrow> select_base s 0 = Inr (int (fst (radix s)), snd (radix s))"
  by (auto simp: select_base_def radix_def lower_eq_b lower_eq_o lower_eq_x)

lemma radix_base: "fst (radix s) \<in> {2, 8, 10, 16}"
  by (simp add: radix_def)

lemma max_uint_lt: "bits = 32 \<or> bits = 64 \<Longrightarrow> max_uint bits < 2 ^ 64"
  by (auto simp: max_uint_def)

lemma le_max_uint: "x \<le> max_uint bits \<longleftrightarrow> x < 2 ^ nat bits"
proof -
  have "0 < (2::nat) ^ nat bits" by simp
  then show ?thesis unfolding max_uint_def by linarith
qed

lemma ParseUint_loop:
  assumes "s \<noteq> []" and "bits = 32 \<or> bits = 64"
  shows "ParseUint sz s 0 bits =
     (case uint_loop True (fst (radix s)) (Suc (maxUint64 div fst (radix s))) (max_uint bits)
             (snd (radix s)) False 0 of
        Inl (v, k) \<Rightarrow> (v, Some \<lparr>Func = ''ParseUint'', Num = s, Err = k\<rparr>)
      | Inr (underscores, n) \<Rightarrow>
          if underscores \<and> \<not> underscoreOK s then (0, Some (syntaxError ''ParseUint'' s))
          else (n, None))"
  using assms(2)
proof
  assume "bits = 32"
  then show ?thesis using assms(1)
    by (simp add: ParseUint_def select_base_radix select_bitSize_def Let_def max_uint_def)
next
  assume "bits = 64"
  then show ?thesis using assms(1)
    by (simp add: ParseUint_def select_base_radix select_bitSize_def Let_def max_uint_def)
qed

lemma radix_pos: "0 < fst (radix s)"
  using radix_base [of s] by auto

lemma ParseUint_wf:
  assumes "well_formed s" and "bits = 32 \<or> bits = 64"
  shows "ParseUint sz s 0 bits =
     (if reading s < 2 ^ nat bits then (reading s, None)
      else (max_uint bits, Some (rangeError ''ParseUint'' s)))"
proof -
  obtain b ds where r: "radix s = (b, ds)" by (cases "radix s")
  from assms(1) r have ne: "s \<noteq> []"
    and ok: "\<forall>c\<in>set ds. c = CHR ''_'' \<or> digit_in b c"
    and us: "CHR ''_'' \<in> set ds \<longrightarrow> underscoreOK s"
    by (simp_all add: well_formed_def)
  have b: "0 < b" using radix_pos [of s] r by simp
  have rd: "positional b 0 (filter (\<lambda>c. c \<noteq> CHR ''_'') ds) = reading s"
    by (simp add: reading_def r)
  have z: "0 \<le> max_uint bits" by simp
  have loop: "uint_loop True b (Suc (maxUint64 div b)) (max_uint bits) ds False 0 =
     (if reading s < 2 ^ nat bits then Inr (CHR ''_'' \<in> set ds, reading s)
      else Inl (max_uint bits, ErrRange))"
    unfolding uint_loop_wf [OF b max_uint_lt [OF assms(2)] ok z] rd le_max_uint by simp
  show ?thesis
    using us by (auto simp: ParseUint_loop [OF ne assms(2)] r loop rangeError_def)
qed

lemma ParseUint_not_wf:
  assumes "\<not> well_formed s" and "bits = 32 \<or> bits = 64"
  shows "snd (ParseUint sz s 0 bits) \<noteq> None"
proof (cases "s = []")
  case True
  then show ?thesis by (simp add: ParseUint_def)
next
  case False
  obtain b ds where r: "radix s = (b, ds)" by (cases "radix s")
  have b: "0 < b" using radix_pos [of s] r by simp
  have z: "0 \<le> max_uint bits" by simp
  show ?thesis
  proof (cases "\<forall>c\<in>set ds. c = CHR ''_'' \<or> digit_in b c")
    case ok: True
    with assms(1) False r have us: "CHR ''_'' \<in> set ds" "\<not> underscoreOK s"
      by (simp_all add: well_formed_def)
    have "uint_loop True b (Suc (maxUint64 div b)) (max_uint bits) ds False 0 =
       (if positional b 0 (filter (\<lambda>c. c \<noteq> CHR ''_'') ds) \<le> max_uint bits
        then Inr (True, positional b 0 (filter (\<lambda>c. c \<noteq> CHR ''_'') ds))
        else Inl (max_uint bits, ErrRange))"
      unfolding uint_loop_wf [OF b max_uint_lt [OF assms(2)] ok z] using us(1) by simp
    then show ?thesis using us(2)
      by (simp add: ParseUint_loop [OF False assms(2)] r)
  next
    case nok: False
    then have "\<exists>c\<in>set ds. c \<noteq> CHR ''_'' \<and> \<not> digit_in b c" by blast
    from uint_loop_bad [OF this]
    obtain p where "uint_loop True b (Suc (maxUint64 div b)) (max_uint bits) ds False 0 = Inl p"
      by blast
    then show ?thesis
      by (cases p) (simp add: ParseUint_loop [OF False assms(2)] r)
  qed
qed

lemma ParseUint_read:
  assumes "bits = 32 \<or> bits = 64"
  shows "case read_uint bits s of
           Some n \<Rightarrow> ParseUint sz s 0 bits = (n, None)
         | None \<Rightarrow> snd (ParseUint sz s 0 bits) \<noteq> None"
proof (cases "well_formed s")
  case True
  from ParseUint_wf [OF True assms] True show ?thesis
    by (simp add: read_uint_def rangeError_def)
next
  case False
  from ParseUint_not_wf [OF False assms] False show ?thesis
    by (simp add: read_uint_def)
qed

lemma int_signed_cutoff: "int (signed_cutoff bits) = 2 ^ nat (bits - 1)"
  by (simp add: signed_cutoff_def)

lemma ParseInt_read:
  assumes "bits = 32 \<or> bits = 64"
  shows "case read_int bits s of
           Some n \<Rightarrow> ParseInt sz s 0 bits = (n, None)
         | None \<Rightarrow> snd (ParseInt sz s 0 bits) \<noteq> None"
proof (cases "s = []")
  case True
  then show ?thesis by (simp add: read_int_def ParseInt_def)
next
  case ne: False
  let ?u = "sign_stripped s"
  let ?c = "signed_cutoff bits"
  have neg: "negative s \<longleftrightarrow> hd s = CHR ''-''" using ne by (simp add: negative_def)
  have two_c: "(2::nat) ^ nat bits = 2 * ?c" by (rule cutoff_facts(3) [OF assms])
  show ?thesis
  proof (cases "well_formed ?u")
    case wf: True
    note pu = ParseUint_wf [OF wf assms, of sz]
    show ?thesis
    proof (cases "reading ?u < 2 ^ nat bits")
      case True
      with pu have "ParseUint sz ?u 0 bits = (reading ?u, None)" by simp
      from ParseInt_of_ok [OF ne assms this] ne wf signed_cutoff_pos [of bits] show ?thesis
        by (auto simp: read_int_def signed_reading_def neg int_signed_cutoff [symmetric])
    next
      case False
      with pu have "ParseUint sz ?u 0 bits = (2 ^ nat bits - 1, Some (rangeError ''ParseUint'' ?u))"
        by (simp add: max_uint_def)
      from ParseInt_of_range [OF ne assms this]
      have err: "snd (ParseInt sz s 0 bits) \<noteq> None" by simp
      from False two_c have "2 * ?c \<le> reading ?u" by simp
      then have "\<not> (- int ?c \<le> signed_reading s \<and> signed_reading s < int ?c)"
        using signed_cutoff_pos [of bits] by (auto simp: signed_reading_def)
      then have "read_int bits s = None"
        by (simp add: read_int_def int_signed_cutoff)
      with err show ?thesis by simp
    qed
  next
    case nwf: False
    then have none: "read_int bits s = None" by (simp add: read_int_def)
    obtain un err where pu: "ParseUint sz ?u 0 bits = (un, err)"
      by (cases "ParseUint sz ?u 0 bits")
    from ParseUint_not_wf [OF nwf assms, of sz] pu have "err \<noteq> None" by simp
    with ParseUint_shape [OF assms pu]
    consider (syn) "err = Some (syntaxError ''ParseUint'' ?u)"
      | (rng) "err = Some (rangeError ''ParseUint'' ?u)" "un = 2 ^ nat bits - 1"
      by blast
    then have "snd (ParseInt sz s 0 bits) \<noteq> None"
    proof cases
      case syn
      from ParseInt_of_syntax [OF ne pu [unfolded syn]] show ?thesis by simp
    next
      case rng
      from ParseInt_of_range [OF ne assms pu [unfolded rng]] show ?thesis by simp
    qed
    with none show ?thesis by simp
  qed
qed

lemma positional_decimal:
  assumes "\<forall>c\<in>set s. byte CHR ''0'' \<le> byte c \<and> byte c \<le> byte CHR ''9''"
  shows "positional 10 n s = foldl (\<lambda>n c. 10 * n + (byte c - byte CHR ''0'')) n s"
  using assms
proof (induction s arbitrary: n)
  case Nil
  then show ?case by (simp add: positional_Nil)
next
  case (Cons c s)
  from Cons.prems have "digit_val c = Some (byte c - byte CHR ''0'')"
    by (simp add: digit_val_def)
  then have "positional 10 n (c # s) = positional 10 (10 * n + (byte c - byte CHR ''0'')) s"
    by (simp add: positional_Cons mult.commute)
  also have "\<dots> = foldl (\<lambda>n c. 10 * n + (byte c - byte CHR ''0'')) (10 * n + (byte c - byte CHR ''0'')) s"
    using Cons.prems by (intro Cons.IH) simp
  finally show ?case by simp
qed

lemma decimal_digit_facts:
  assumes "byte CHR ''0'' \<le> byte c" "byte c \<le> byte CHR ''9''"
  shows "c \<noteq> CHR ''_''" "c \<noteq> CHR ''+''" "c \<noteq> CHR ''-''" "digit_in 10 c"
proof -
  have b: "48 \<le> byte c" "byte c \<le> 57" using assms by (simp_all add: byte_lits)
  have "byte CHR ''_'' = 95" "byte CHR ''+'' = 43" "byte CHR ''-'' = 45"
    by (simp_all add: byte_def)
  with b show "c \<noteq> CHR ''_''" "c \<noteq> CHR ''+''" "c \<noteq> CHR ''-''" by auto
  from b show "digit_in 10 c" by (simp add: digit_in_def digit_val_def byte_lits)
qed

lemma decimal_reading:
  assumes "decimal_digits s" and "hd s \<noteq> CHR ''0'' \<or> s = ''0''"
  shows "well_formed s" "reading s = decimal s" "sign_stripped s = s" "\<not> negative s"
proof -
  from assms(1) have ne: "s \<noteq> []"
    and dg: "\<forall>c\<in>set s. byte CHR ''0'' \<le> byte c \<and> byte c \<le> byte CHR ''9''"
    by (simp_all add: decimal_digits_def)
  from ne have "hd s \<in> set s" by simp
  with dg have h: "byte CHR ''0'' \<le> byte (hd s)" "byte (hd s) \<le> byte CHR ''9''" by auto
  from decimal_digit_facts(2,3) [OF h] show "sign_stripped s = s" "\<not> negative s"
    by (simp_all add: sign_stripped_def negative_def)
  show "well_formed s" "reading s = decimal s"
  proof -
    from assms(2) have "well_formed s \<and> reading s = decimal s"
    proof
      assume "s = ''0''"
      then show ?thesis
        by (simp add: well_formed_def reading_def radix_def decimal_def positional_Nil)
    next
      assume nz: "hd s \<noteq> CHR ''0''"
      then have r: "radix s = (10, s)" by (simp add: radix_def)
      have nu: "CHR ''_'' \<notin> set s" using dg decimal_digit_facts(1) by blast
      then have f: "filter (\<lambda>c. c \<noteq> CHR ''_'') s = s" by (induction s) auto
      have "\<forall>c\<in>set s. c = CHR ''_'' \<or> digit_in 10 c" using dg decimal_digit_facts(4) by blast
      with ne nu have "well_formed s" by (simp add: well_formed_def r)
      moreover have "reading s = decimal s"
        by (simp add: reading_def r f positional_decimal [OF dg] decimal_def)
      ultimately show ?thesis by simp
    qed
    then show "well_formed s" "reading s = decimal s" by simp_all
  qed
qed

lemma decimal_read_uint:
  assumes "decimal_digits s" and "hd s \<noteq> CHR ''0'' \<or> s = ''0''"
  shows "read_uint bits s = (if decimal s < 2 ^ nat bits then Some (decimal s) else None)"
  using decimal_reading [OF assms] by (simp add: read_uint_def)

lemma decimal_read_int:
  assumes "decimal_digits s" and "hd s \<noteq> CHR ''0'' \<or> s = ''0''"
  shows "read_int bits s =
     (if int (decimal s) < 2 ^ nat (bits - 1) then Some (int (decimal s)) else None)"
proof -
  from assms(1) have ne: "s \<noteq> []" by (simp add: decimal_digits_def)
  have "- (2 ^ nat (bits - 1)) \<le> int (decimal s)"
    by (rule order_trans [of _ 0]) simp_all
  with decimal_reading [OF assms] ne show ?thesis
    by (simp add: read_int_def signed_reading_def)
qed

lemma wrap_signed_range:
  assumes "bits = 32 \<or> bits = 64" "- (2 ^ nat (bits - 1)) \<le> x" "x < 2 ^ nat (bits - 1)"
  shows "wrap_signed bits x = x"
  using assms(1)
proof
  assume b: "bits = 32"
  with assms(2,3) have "(x + 2 ^ 31) mod 2 ^ 32 = x + 2 ^ 31"
    by (intro mod_pos_pos_trivial) simp_all
  with b show ?thesis by (simp add: wrap_signed_def)
next
  assume b: "bits = 64"
  with assms(2,3) have "(x + 2 ^ 63) mod 2 ^ 64 = x + 2 ^ 63"
    by (intro mod_pos_pos_trivial) simp_all
  with b show ?thesis by (simp add: wrap_signed_def)
qed

lemma signed_conv:
  assumes "bits = 32 \<or> bits = 64"
  shows "wrap_signed bits (fst (ParseInt sz s 0 bits)) = fst (ParseInt sz s 0 bits)"
proof -
  obtain v e where p: "ParseInt sz s 0 bits = (v, e)" by (cases "ParseInt sz s 0 bits")
  have c: "0 < int (signed_cutoff bits)" using signed_cutoff_pos [of bits] by simp
  from ParseInt_shape [OF assms p] c
  have "- int (signed_cutoff bits) \<le> v \<and> v < int (signed_cutoff bits)" by auto
  then have "wrap_signed bits v = v"
    by (intro wrap_signed_range [OF assms]) (simp_all add: int_signed_cutoff)
  with p show ?thesis by simp
qed

lemma unsigned_conv:
  assumes "bits = 32 \<or> bits = 64"
  shows "wrap_unsigned bits (fst (ParseUint sz s 0 bits)) = fst (ParseUint sz s 0 bits)"
proof -
  obtain v e where p: "ParseUint sz s 0 bits = (v, e)" by (cases "ParseUint sz s 0 bits")
  have "0 < (2::nat) ^ nat bits" by simp
  with ParseUint_shape [OF assms p] have "v < 2 ^ nat bits" by auto
  with p show ?thesis by (simp add: wrap_unsigned_def)
qed

lemma native_size: "sz = 4 \<or> sz = 8 \<Longrightarrow> intsize sz = 32 \<or> intsize sz = 64"
  "sz = 4 \<or> sz = 8 \<Longrightarrow> uintsize sz = 32 \<or> uintsize sz = 64"
  by (auto simp: intsize_def uintsize_def)

lemma signed_fetch_error:
  assumes "bits = 32 \<or> bits = 64" and "snd (ParseInt sz v 0 bits) = Some e"
  shows "(Err e = ErrSyntax \<and> fst (ParseInt sz v 0 bits) = 0) \<or>
         (Err e = ErrRange \<and>
            fst (ParseInt sz v 0 bits) =
              (if negative v then - (2 ^ nat (bits - 1)) else 2 ^ nat (bits - 1) - 1))"
proof (cases "v = []")
  case True
  with assms(2) show ?thesis by (auto simp: ParseInt_def syntaxError_def)
next
  case ne: False
  have neg: "negative v \<longleftrightarrow> hd v = CHR ''-''" using ne by (simp add: negative_def)
  obtain un err where pu: "ParseUint sz (sign_stripped v) 0 bits = (un, err)"
    by (cases "ParseUint sz (sign_stripped v) 0 bits")
  from ParseUint_shape [OF assms(1) pu]
  consider (ok) "err = None"
    | (syn) "err = Some (syntaxError ''ParseUint'' (sign_stripped v))"
    | (rng) "err = Some (rangeError ''ParseUint'' (sign_stripped v))" "un = 2 ^ nat bits - 1"
    by blast
  then show ?thesis
  proof cases
    case syn
    from ParseInt_of_syntax [OF ne pu [unfolded syn]] assms(2) show ?thesis
      by (auto simp: syntaxError_def)
  next
    case rng
    from ParseInt_of_range [OF ne assms(1) pu [unfolded rng]] assms(2) show ?thesis
      by (auto simp: rangeError_def neg int_signed_cutoff)
  next
    case ok
    from ParseInt_of_ok [OF ne assms(1) pu [unfolded ok]] assms(2) show ?thesis
      by (auto simp: rangeError_def neg int_signed_cutoff split: if_splits)
  qed
qed

lemma unsigned_fetch_error:
  assumes "bits = 32 \<or> bits = 64" and "snd (ParseUint sz v 0 bits) = Some e"
  shows "(Err e = ErrSyntax \<and> fst (ParseUint sz v 0 bits) = 0) \<or>
         (Err e = ErrRange \<and> fst (ParseUint sz v 0 bits) = 2 ^ nat bits - 1)"
proof -
  obtain x where p: "ParseUint sz v 0 bits = (x, Some e)"
    using assms(2) by (cases "ParseUint sz v 0 bits") simp
  from ParseUint_shape [OF assms(1) p] show ?thesis
    by (auto simp: p syntaxError_def rangeError_def)
qed

lemma signed_accessor_read:
  assumes "bits = 32 \<or> bits = 64"
  shows "case read_int bits s of
           Some n \<Rightarrow> snd (ParseInt sz s 0 bits) = None \<and>
             wrap_signed bits (fst (ParseInt sz s 0 bits)) = n \<and> fst (ParseInt sz s 0 bits) = n
         | None \<Rightarrow> snd (ParseInt sz s 0 bits) \<noteq> None"
  using ParseInt_read [OF assms, where s = s and sz = sz] signed_conv [OF assms, where s = s and sz = sz]
  by (cases "read_int bits s") simp_all

lemma unsigned_accessor_read:
  assumes "bits = 32 \<or> bits = 64"
  shows "case read_uint bits s of
           Some n \<Rightarrow> snd (ParseUint sz s 0 bits) = None \<and>
             wrap_unsigned bits (fst (ParseUint sz s 0 bits)) = n \<and> fst (ParseUint sz s 0 bits) = n
         | None \<Rightarrow> snd (ParseUint sz s 0 bits) \<noteq> None"
  using ParseUint_read [OF assms, where s = s and sz = sz] unsigned_conv [OF assms, where s = s and sz = sz]
  by (cases "read_uint bits s") simp_all

text \<open>The equations that evaluate the parsers on a concrete text.\<close>

lemmas strconv_eval = uint_loop.simps ParseInt_def ParseUint_def select_base_def select_bitSize_def underscoreOK_def
  ParseBool_def byte_def lower_def digit_def maxUint64_def IntSize_def intsize_def uintsize_def to_int64_def
  wrap_signed_def wrap_unsigned_def syntaxError_def rangeError_def baseError_def bitSizeError_def
  Let_def

lemmas numeral_eval = read_int_def read_uint_def well_formed_def reading_def radix_def
  positional_def digit_in_def digit_val_def sign_stripped_def negative_def signed_reading_def
  decimal_def decimal_digits_def

section \<open>Claims\<close>

text \<open>
  C1. When \<open>key\<close> is present with the text \<open>v\<close>, every typed accessor of the final and
  of the middle revision, assign-style or fetcher, returns the environment with \<open>key\<close>
  removed, whatever the parser says about \<open>v\<close>; the error it returns is the parser's
  error on \<open>v\<close>, so a parse error comes back together with the table that no longer has
  the key.
\<close>

theorem present_key_removed_on_every_path:
  assumes "\<E> key = Some v"
  shows
  "(case String out_s key \<E> of (out, \<E>') \<Rightarrow> \<E>' = \<E>(key := None)) \<and>
   (case Bool out_b key \<E> of (err, out, \<E>') \<Rightarrow> err = snd (ParseBool v) \<and> \<E>' = \<E>(key := None)) \<and>
   (case Float64 ParseFloat out_f key \<E> of (err, out, \<E>') \<Rightarrow> err = snd (ParseFloat v 64) \<and> \<E>' = \<E>(key := None)) \<and>
   (case Float32 ParseFloat float32_conv out_g key \<E> of (err, out, \<E>') \<Rightarrow> err = snd (ParseFloat v 32) \<and> \<E>' = \<E>(key := None)) \<and>
   (case Int64 sz out_i key \<E> of (err, out, \<E>') \<Rightarrow> err = snd (ParseInt sz v 0 64) \<and> \<E>' = \<E>(key := None)) \<and>
   (case Int32 sz out_i key \<E> of (err, out, \<E>') \<Rightarrow> err = snd (ParseInt sz v 0 32) \<and> \<E>' = \<E>(key := None)) \<and>
   (case Int_native sz out_i key \<E> of (err, out, \<E>') \<Rightarrow> err = snd (ParseInt sz v 0 (intsize sz)) \<and> \<E>' = \<E>(key := None)) \<and>
   (case Uint64 sz out_u key \<E> of (err, out, \<E>') \<Rightarrow> err = snd (ParseUint sz v 0 64) \<and> \<E>' = \<E>(key := None)) \<and>
   (case Uint32 sz out_u key \<E> of (err, out, \<E>') \<Rightarrow> err = snd (ParseUint sz v 0 32) \<and> \<E>' = \<E>(key := None)) \<and>
   (case Uint sz out_u key \<E> of (err, out, \<E>') \<Rightarrow> err = snd (ParseUint sz v 0 (uintsize sz)) \<and> \<E>' = \<E>(key := None)) \<and>
   (case GetString key \<E> of (val, ok, \<E>') \<Rightarrow> \<E>' = \<E>(key := None)) \<and>
   (case GetBool key \<E> of (val, ok, err, \<E>') \<Rightarrow> err = snd (ParseBool v) \<and> \<E>' = \<E>(key := None)) \<and>
   (case GetFloat64 ParseFloat key \<E> of (val, ok, err, \<E>') \<Rightarrow> err = snd (ParseFloat v 64) \<and> \<E>' = \<E>(key := None)) \<and>
   (case GetFloat32 ParseFloat float32_conv key \<E> of (val, ok, err, \<E>') \<Rightarrow> err = snd (ParseFloat v 32) \<and> \<E>' = \<E>(key := None)) \<and>
   (case GetInt64 sz key \<E> of (val, ok, err, \<E>') \<Rightarrow> err = snd (ParseInt sz v 0 64) \<and> \<E>' = \<E>(key := None)) \<and>
   (case GetInt32 sz key \<E> of (val, ok, err, \<E>') \<Rightarrow> err = snd (ParseInt sz v 0 32) \<and> \<E>' = \<E>(key := None)) \<and>
   (case GetInt sz key \<E> of (val, ok, err, \<E>') \<Rightarrow> err = snd (ParseInt sz v 0 (intsize sz)) \<and> \<E>' = \<E>(key := None)) \<and>
   (case GetUint64 sz key \<E> of (val, ok, err, \<E>') \<Rightarrow> err = snd (ParseUint sz v 0 64) \<and> \<E>' = \<E>(key := None)) \<and>
   (case GetUint32 sz key \<E> of (val, ok, err, \<E>') \<Rightarrow> err = snd (ParseUint sz v 0 32) \<and> \<E>' = \<E>(key := None)) \<and>
   (case GetUint sz key \<E> of (val, ok, err, \<E>') \<Rightarrow> err = snd (ParseUint sz v 0 (uintsize sz)) \<and> \<E>' = \<E>(key := None)) \<and>
   (case String_mid out_s key \<E> of (out, \<E>') \<Rightarrow> \<E>' = \<E>(key := None)) \<and>
   (case Bool_mid out_b key \<E> of (err, out, \<E>') \<Rightarrow> err = snd (ParseBool v) \<and> \<E>' = \<E>(key := None)) \<and>
   (case Float64_mid ParseFloat out_f key \<E> of (err, out, \<E>') \<Rightarrow> err = snd (ParseFloat v 64) \<and> \<E>' = \<E>(key := None)) \<and>
   (case Float32_mid ParseFloat float32_conv out_g key \<E> of (err, out, \<E>') \<Rightarrow> err = snd (ParseFloat v 32) \<and> \<E>' = \<E>(key := None)) \<and>
   (case Int64_mid sz out_i key \<E> of (err, out, \<E>') \<Rightarrow> err = snd (ParseInt sz v 0 64) \<and> \<E>' = \<E>(key := None)) \<and>
   (case Int32_mid sz out_i key \<E> of (err, out, \<E>') \<Rightarrow> err = snd (ParseInt sz v 0 32) \<and> \<E>' = \<E>(key := None)) \<and>
   (case Int_native_mid sz out_i key \<E> of (err, out, \<E>') \<Rightarrow> err = snd (ParseInt sz v 0 (intsize sz)) \<and> \<E>' = \<E>(key := None)) \<and>
   (case Uint64_mid sz out_u key \<E> of (err, out, \<E>') \<Rightarrow> err = snd (ParseUint sz v 0 64) \<and> \<E>' = \<E>(key := None)) \<and>
   (case Uint32_mid sz out_u key \<E> of (err, out, \<E>') \<Rightarrow> err = snd (ParseUint sz v 0 32) \<and> \<E>' = \<E>(key := None)) \<and>
   (case Uint_mid sz out_u key \<E> of (err, out, \<E>') \<Rightarrow> err = snd (ParseUint sz v 0 (uintsize sz)) \<and> \<E>' = \<E>(key := None))"
  using assms by (simp add:
    String_char Bool_char Float64_char Float32_char Int64_char Int32_char Int_native_char
    Uint64_char Uint32_char Uint_char GetString_char GetBool_char GetFloat64_char
    GetFloat32_char GetInt64_char GetInt32_char GetInt_char GetUint64_char GetUint32_char
    GetUint_char String_mid_eq Bool_mid_eq Float64_mid_eq Float32_mid_eq Int64_mid_eq
    Int32_mid_eq Int_native_mid_eq Uint64_mid_eq Uint32_mid_eq Uint_mid_eq)

theorem present_key_removed_witness:
  "[''COUNT'' \<mapsto> ''notanumber''] ''COUNT'' = Some ''notanumber'' \<and>
   (case GetInt 8 ''COUNT'' [''COUNT'' \<mapsto> ''notanumber''] of (val, ok, err, \<E>') \<Rightarrow>
      err = Some (syntaxError ''ParseInt'' ''notanumber'') \<and>
      \<E>' = [''COUNT'' \<mapsto> ''notanumber''](''COUNT'' := None)) \<and>
   (case Bool True ''COUNT'' [''COUNT'' \<mapsto> ''notanumber''] of (err, out, \<E>') \<Rightarrow>
      err = Some (syntaxError ''ParseBool'' ''notanumber'') \<and>
      \<E>' = [''COUNT'' \<mapsto> ''notanumber''](''COUNT'' := None))"
proof -
  have h: "[''COUNT'' \<mapsto> ''notanumber''] ''COUNT'' = Some ''notanumber''" by simp
  show ?thesis
    using present_key_removed_on_every_path [where \<E> = "[''COUNT'' \<mapsto> ''notanumber'']"
        and key = "''COUNT''" and v = "''notanumber''" and ParseFloat = "\<lambda>s b. (0::int, Some (syntaxError ''ParseFloat'' s))"
        and float32_conv = "\<lambda>x::int. x" and sz = 8 and out_s = "''a''" and out_b = True and out_f = 1
        and out_g = 2 and out_i = 3 and out_u = 4, OF h]
    by (simp add: strconv_eval)
qed

text \<open>
  C2. For each assign-style accessor of the final revision, every key, every environment
  and every starting value of the output reference. When \<open>key\<close> is absent, the accessor
  returns no error and leaves the output and the environment as they were. When \<open>key\<close>
  holds the text \<open>v\<close> and the parser of the accessor's type accepts \<open>v\<close> with the
  value \<open>val\<close>, no error is returned and the output holds \<open>val\<close> (for \<open>Float32\<close>,
  \<open>val\<close> converted by \<^verbatim>\<open>float32\<close>, as the source writes it; for the 32-bit and the
  native integer accessors the conversion does not change \<open>val\<close>). When the parser
  rejects \<open>v\<close> with the error \<open>e\<close>, the accessor returns \<open>e\<close> and the output holds its
  starting value. \<open>String\<close> has no error result and writes \<open>v\<close>. The parameter \<open>sz\<close>
  is the platform's word size in bytes.
\<close>

theorem assign_contract:
  assumes "sz = 4 \<or> sz = 8"
  shows
  "(\<E> key = None \<longrightarrow>
      String out_s key \<E> = (out_s, \<E>) \<and>
      Bool out_b key \<E> = (None, out_b, \<E>) \<and>
      Float64 ParseFloat out_f key \<E> = (None, out_f, \<E>) \<and>
      Float32 ParseFloat float32_conv out_g key \<E> = (None, out_g, \<E>) \<and>
      Int64 sz out_i key \<E> = (None, out_i, \<E>) \<and>
      Int32 sz out_i key \<E> = (None, out_i, \<E>) \<and>
      Int_native sz out_i key \<E> = (None, out_i, \<E>) \<and>
      Uint64 sz out_u key \<E> = (None, out_u, \<E>) \<and>
      Uint32 sz out_u key \<E> = (None, out_u, \<E>) \<and>
      Uint sz out_u key \<E> = (None, out_u, \<E>)) \<and>
   (\<E> key = Some v \<longrightarrow>
      fst (String out_s key \<E>) = v \<and>
      (case Bool out_b key \<E> of (err, out, \<E>') \<Rightarrow>
         (case ParseBool v of
            (val, None) \<Rightarrow> err = None \<and> out = val
          | (val, Some e) \<Rightarrow> err = Some e \<and> out = out_b)) \<and>
      (case Float64 ParseFloat out_f key \<E> of (err, out, \<E>') \<Rightarrow>
         (case ParseFloat v 64 of
            (val, None) \<Rightarrow> err = None \<and> out = val
          | (val, Some e) \<Rightarrow> err = Some e \<and> out = out_f)) \<and>
      (case Float32 ParseFloat float32_conv out_g key \<E> of (err, out, \<E>') \<Rightarrow>
         (case ParseFloat v 32 of
            (val, None) \<Rightarrow> err = None \<and> out = float32_conv val
          | (val, Some e) \<Rightarrow> err = Some e \<and> out = out_g)) \<and>
      (case Int64 sz out_i key \<E> of (err, out, \<E>') \<Rightarrow>
         (case ParseInt sz v 0 64 of
            (val, None) \<Rightarrow> err = None \<and> out = val
          | (val, Some e) \<Rightarrow> err = Some e \<and> out = out_i)) \<and>
      (case Int32 sz out_i key \<E> of (err, out, \<E>') \<Rightarrow>
         (case ParseInt sz v 0 32 of
            (val, None) \<Rightarrow> err = None \<and> out = val
          | (val, Some e) \<Rightarrow> err = Some e \<and> out = out_i)) \<and>
      (case Int_native sz out_i key \<E> of (err, out, \<E>') \<Rightarrow>
         (case ParseInt sz v 0 (intsize sz) of
            (val, None) \<Rightarrow> err = None \<and> out = val
          | (val, Some e) \<Rightarrow> err = Some e \<and> out = out_i)) \<and>
      (case Uint64 sz out_u key \<E> of (err, out, \<E>') \<Rightarrow>
         (case ParseUint sz v 0 64 of
            (val, None) \<Rightarrow> err = None \<and> out = val
          | (val, Some e) \<Rightarrow> err = Some e \<and> out = out_u)) \<and>
      (case Uint32 sz out_u key \<E> of (err, out, \<E>') \<Rightarrow>
         (case ParseUint sz v 0 32 of
            (val, None) \<Rightarrow> err = None \<and> out = val
          | (val, Some e) \<Rightarrow> err = Some e \<and> out = out_u)) \<and>
      (case Uint sz out_u key \<E> of (err, out, \<E>') \<Rightarrow>
         (case ParseUint sz v 0 (uintsize sz) of
            (val, None) \<Rightarrow> err = None \<and> out = val
          | (val, Some e) \<Rightarrow> err = Some e \<and> out = out_u)))"
proof -
  have s32: "wrap_signed 32 (fst (ParseInt sz v 0 32)) = fst (ParseInt sz v 0 32)"
    by (rule signed_conv) simp
  have sn: "wrap_signed (intsize sz) (fst (ParseInt sz v 0 (intsize sz)))
      = fst (ParseInt sz v 0 (intsize sz))"
    by (rule signed_conv [OF native_size(1) [OF assms]])
  have u32: "wrap_unsigned 32 (fst (ParseUint sz v 0 32)) = fst (ParseUint sz v 0 32)"
    by (rule unsigned_conv) simp
  have un: "wrap_unsigned (uintsize sz) (fst (ParseUint sz v 0 (uintsize sz)))
      = fst (ParseUint sz v 0 (uintsize sz))"
    by (rule unsigned_conv [OF native_size(2) [OF assms]])
  show ?thesis
    by (intro conjI impI)
      (simp_all add: String_char Bool_char Float64_char Float32_char Int64_char Int32_char
        Int_native_char Uint64_char Uint32_char Uint_char s32 sn u32 un
        split: prod.split option.split)
qed

theorem assign_contract_witness:
  "((8::int) = 4 \<or> (8::int) = 8) \<and>
   [''PORT'' \<mapsto> ''8080''] ''DEBUG'' = None \<and>
   Bool False ''DEBUG'' [''PORT'' \<mapsto> ''8080''] = (None, False, [''PORT'' \<mapsto> ''8080'']) \<and>
   [''PORT'' \<mapsto> ''8080''] ''PORT'' = Some ''8080'' \<and>
   ParseInt 8 ''8080'' 0 (intsize 8) = (8080, None) \<and>
   (case Int_native 8 0 ''PORT'' [''PORT'' \<mapsto> ''8080''] of (err, out, \<E>') \<Rightarrow>
      err = None \<and> out = 8080) \<and>
   [''COUNT'' \<mapsto> ''notanumber''] ''COUNT'' = Some ''notanumber'' \<and>
   ParseInt 8 ''notanumber'' 0 (intsize 8) = (0, Some (syntaxError ''ParseInt'' ''notanumber'')) \<and>
   (case Int_native 8 7 ''COUNT'' [''COUNT'' \<mapsto> ''notanumber''] of (err, out, \<E>') \<Rightarrow>
      err = Some (syntaxError ''ParseInt'' ''notanumber'') \<and> out = 7)"
proof -
  have sz: "(8::int) = 4 \<or> (8::int) = 8" by simp
  note a = assign_contract [OF sz, where \<E> = "[''PORT'' \<mapsto> ''8080'']" and key = "''DEBUG''"
      and out_b = False and out_s = "''''" and out_i = 0 and out_u = 0 and v = "''''"
      and ParseFloat = "\<lambda>s b. (0::int, Some (syntaxError ''ParseFloat'' s))"
      and float32_conv = "\<lambda>x::int. x" and out_f = 0 and out_g = 0]
  note b = assign_contract [OF sz, where \<E> = "[''PORT'' \<mapsto> ''8080'']" and key = "''PORT''"
      and out_b = False and out_s = "''''" and out_i = 0 and out_u = 0 and v = "''8080''"
      and ParseFloat = "\<lambda>s b. (0::int, Some (syntaxError ''ParseFloat'' s))"
      and float32_conv = "\<lambda>x::int. x" and out_f = 0 and out_g = 0]
  note c = assign_contract [OF sz, where \<E> = "[''COUNT'' \<mapsto> ''notanumber'']"
      and key = "''COUNT''"
      and out_b = False and out_s = "''''" and out_i = 7 and out_u = 0 and v = "''notanumber''"
      and ParseFloat = "\<lambda>s b. (0::int, Some (syntaxError ''ParseFloat'' s))"
      and float32_conv = "\<lambda>x::int. x" and out_f = 0 and out_g = 0]
  have p1: "ParseInt 8 ''8080'' 0 (intsize 8) = (8080, None)"
    by (simp add: strconv_eval)
  have p2: "ParseInt 8 ''notanumber'' 0 (intsize 8)
      = (0, Some (syntaxError ''ParseInt'' ''notanumber''))"
    by (simp add: strconv_eval)
  from a have "Bool False ''DEBUG'' [''PORT'' \<mapsto> ''8080''] = (None, False, [''PORT'' \<mapsto> ''8080''])"
    by simp
  moreover from b have "case Int_native 8 0 ''PORT'' [''PORT'' \<mapsto> ''8080''] of
      (err, out, \<E>') \<Rightarrow> err = None \<and> out = 8080"
    by (simp add: p1)
  moreover from c have "case Int_native 8 7 ''COUNT'' [''COUNT'' \<mapsto> ''notanumber''] of
      (err, out, \<E>') \<Rightarrow> err = Some (syntaxError ''ParseInt'' ''notanumber'') \<and> out = 7"
    by (simp add: p2)
  ultimately show ?thesis using p1 p2 by simp
qed

text \<open>
  C3. When \<open>key\<close> is absent, every fetcher returns the zero value of its type (the empty
  string, \<open>false\<close>, 0), the presence flag \<open>false\<close> and no error (\<open>GetString\<close> has no
  error result), and the environment it returns is the one it was given.
\<close>

theorem fetch_absent_key:
  assumes "\<E> key = None"
  shows
  "GetString key \<E> = ('''', False, \<E>) \<and>
   GetBool key \<E> = (False, False, None, \<E>) \<and>
   GetFloat64 ParseFloat key \<E> = (0, False, None, \<E>) \<and>
   GetFloat32 ParseFloat float32_conv key \<E> = (0, False, None, \<E>) \<and>
   GetInt64 sz key \<E> = (0, False, None, \<E>) \<and>
   GetInt32 sz key \<E> = (0, False, None, \<E>) \<and>
   GetInt sz key \<E> = (0, False, None, \<E>) \<and>
   GetUint64 sz key \<E> = (0, False, None, \<E>) \<and>
   GetUint32 sz key \<E> = (0, False, None, \<E>) \<and>
   GetUint sz key \<E> = (0, False, None, \<E>)"
  using assms by (simp add:
    GetString_char GetBool_char GetFloat64_char GetFloat32_char GetInt64_char GetInt32_char
    GetInt_char GetUint64_char GetUint32_char GetUint_char)

theorem fetch_absent_key_witness:
  "[''PORT'' \<mapsto> ''8080''] ''DEBUG'' = None \<and>
   GetBool ''DEBUG'' [''PORT'' \<mapsto> ''8080''] = (False, False, None, [''PORT'' \<mapsto> ''8080'']) \<and>
   GetInt64 8 ''DEBUG'' [''PORT'' \<mapsto> ''8080''] = (0, False, None, [''PORT'' \<mapsto> ''8080''])"
proof -
  have h: "[''PORT'' \<mapsto> ''8080''] ''DEBUG'' = None" by simp
  show ?thesis
    using fetch_absent_key [where \<E> = "[''PORT'' \<mapsto> ''8080'']" and key = "''DEBUG''"
        and ParseFloat = "\<lambda>s b. (0::int, Some (syntaxError ''ParseFloat'' s))"
        and float32_conv = "\<lambda>x::int. x" and sz = 8, OF h]
    by simp
qed

text \<open>
  C4 as stated fails on a number out of range: with \<^verbatim>\<open>COUNT=9223372036854775808\<close> on a
  64-bit platform, \<open>GetInt\<close> returns the largest \<^verbatim>\<open>int\<close> next to the range error, not
  zero.
\<close>

theorem fetch_range_error_value_counterexample:
  "[''COUNT'' \<mapsto> ''9223372036854775808''] ''COUNT'' = Some ''9223372036854775808'' \<and>
   GetInt 8 ''COUNT'' [''COUNT'' \<mapsto> ''9223372036854775808''] =
     (9223372036854775807, True, Some (rangeError ''ParseInt'' ''9223372036854775808''),
      [''COUNT'' \<mapsto> ''9223372036854775808''](''COUNT'' := None)) \<and>
   fst (GetInt 8 ''COUNT'' [''COUNT'' \<mapsto> ''9223372036854775808'']) \<noteq> 0"
  by (simp add: GetInt_char strconv_eval)

text \<open>
  C4, as amended. When \<open>key\<close> holds a text \<open>v\<close> on which the integer parser of the
  fetcher's type returns the error \<open>e\<close>, the Get-style fetcher returns the presence flag
  \<open>true\<close> and the error \<open>e\<close>, and the environment it leaves no longer has \<open>key\<close>. The
  error is a syntax error or a range error. The value returned is 0 with a syntax error.
  With a range error it is the largest value of the type, except that a signed fetcher
  returns the smallest value of its type when \<open>v\<close> begins with a minus sign.
\<close>

theorem fetch_invalid_integer:
  assumes "sz = 4 \<or> sz = 8" and "\<E> key = Some v"
  shows
  "(snd (ParseInt sz v 0 64) = Some e \<longrightarrow>
      (case GetInt64 sz key \<E> of (val, ok, err, \<E>') \<Rightarrow>
         ok \<and> err = Some e \<and> \<E>' = \<E>(key := None) \<and>
         ((Err e = ErrSyntax \<and> val = 0) \<or>
          (Err e = ErrRange \<and> val = (if negative v then - (2 ^ 63) else 2 ^ 63 - 1))))) \<and>
   (snd (ParseInt sz v 0 32) = Some e \<longrightarrow>
      (case GetInt32 sz key \<E> of (val, ok, err, \<E>') \<Rightarrow>
         ok \<and> err = Some e \<and> \<E>' = \<E>(key := None) \<and>
         ((Err e = ErrSyntax \<and> val = 0) \<or>
          (Err e = ErrRange \<and> val = (if negative v then - (2 ^ 31) else 2 ^ 31 - 1))))) \<and>
   (snd (ParseInt sz v 0 (intsize sz)) = Some e \<longrightarrow>
      (case GetInt sz key \<E> of (val, ok, err, \<E>') \<Rightarrow>
         ok \<and> err = Some e \<and> \<E>' = \<E>(key := None) \<and>
         ((Err e = ErrSyntax \<and> val = 0) \<or>
          (Err e = ErrRange \<and>
             val = (if negative v then - (2 ^ nat (intsize sz - 1))
                    else 2 ^ nat (intsize sz - 1) - 1))))) \<and>
   (snd (ParseUint sz v 0 64) = Some e \<longrightarrow>
      (case GetUint64 sz key \<E> of (val, ok, err, \<E>') \<Rightarrow>
         ok \<and> err = Some e \<and> \<E>' = \<E>(key := None) \<and>
         ((Err e = ErrSyntax \<and> val = 0) \<or> (Err e = ErrRange \<and> val = 2 ^ 64 - 1)))) \<and>
   (snd (ParseUint sz v 0 32) = Some e \<longrightarrow>
      (case GetUint32 sz key \<E> of (val, ok, err, \<E>') \<Rightarrow>
         ok \<and> err = Some e \<and> \<E>' = \<E>(key := None) \<and>
         ((Err e = ErrSyntax \<and> val = 0) \<or> (Err e = ErrRange \<and> val = 2 ^ 32 - 1)))) \<and>
   (snd (ParseUint sz v 0 (uintsize sz)) = Some e \<longrightarrow>
      (case GetUint sz key \<E> of (val, ok, err, \<E>') \<Rightarrow>
         ok \<and> err = Some e \<and> \<E>' = \<E>(key := None) \<and>
         ((Err e = ErrSyntax \<and> val = 0) \<or>
          (Err e = ErrRange \<and> val = 2 ^ nat (uintsize sz) - 1))))"
proof (intro conjI impI)
  assume e: "snd (ParseInt sz v 0 64) = Some e"
  from signed_fetch_error [OF _ e] show
    "case GetInt64 sz key \<E> of (val, ok, err, \<E>') \<Rightarrow>
         ok \<and> err = Some e \<and> \<E>' = \<E>(key := None) \<and>
         ((Err e = ErrSyntax \<and> val = 0) \<or>
          (Err e = ErrRange \<and> val = (if negative v then - (2 ^ 63) else 2 ^ 63 - 1)))"
    by (auto simp: GetInt64_char assms(2) e split: if_splits)
next
  assume e: "snd (ParseInt sz v 0 32) = Some e"
  have c: "wrap_signed 32 (fst (ParseInt sz v 0 32)) = fst (ParseInt sz v 0 32)"
    by (rule signed_conv) simp
  from signed_fetch_error [OF _ e] show
    "case GetInt32 sz key \<E> of (val, ok, err, \<E>') \<Rightarrow>
         ok \<and> err = Some e \<and> \<E>' = \<E>(key := None) \<and>
         ((Err e = ErrSyntax \<and> val = 0) \<or>
          (Err e = ErrRange \<and> val = (if negative v then - (2 ^ 31) else 2 ^ 31 - 1)))"
    by (auto simp: GetInt32_char assms(2) e c split: if_splits)
next
  assume e: "snd (ParseInt sz v 0 (intsize sz)) = Some e"
  have c: "wrap_signed (intsize sz) (fst (ParseInt sz v 0 (intsize sz)))
      = fst (ParseInt sz v 0 (intsize sz))"
    by (rule signed_conv [OF native_size(1) [OF assms(1)]])
  from signed_fetch_error [OF native_size(1) [OF assms(1)] e] show
    "case GetInt sz key \<E> of (val, ok, err, \<E>') \<Rightarrow>
         ok \<and> err = Some e \<and> \<E>' = \<E>(key := None) \<and>
         ((Err e = ErrSyntax \<and> val = 0) \<or>
          (Err e = ErrRange \<and>
             val = (if negative v then - (2 ^ nat (intsize sz - 1))
                    else 2 ^ nat (intsize sz - 1) - 1)))"
    by (auto simp: GetInt_char assms(2) e c split: if_splits)
next
  assume e: "snd (ParseUint sz v 0 64) = Some e"
  from unsigned_fetch_error [OF _ e] show
    "case GetUint64 sz key \<E> of (val, ok, err, \<E>') \<Rightarrow>
         ok \<and> err = Some e \<and> \<E>' = \<E>(key := None) \<and>
         ((Err e = ErrSyntax \<and> val = 0) \<or> (Err e = ErrRange \<and> val = 2 ^ 64 - 1))"
    by (simp add: GetUint64_char assms(2) e)
next
  assume e: "snd (ParseUint sz v 0 32) = Some e"
  have c: "wrap_unsigned 32 (fst (ParseUint sz v 0 32)) = fst (ParseUint sz v 0 32)"
    by (rule unsigned_conv) simp
  from unsigned_fetch_error [OF _ e] show
    "case GetUint32 sz key \<E> of (val, ok, err, \<E>') \<Rightarrow>
         ok \<and> err = Some e \<and> \<E>' = \<E>(key := None) \<and>
         ((Err e = ErrSyntax \<and> val = 0) \<or> (Err e = ErrRange \<and> val = 2 ^ 32 - 1))"
    by (simp add: GetUint32_char assms(2) e c)
next
  assume e: "snd (ParseUint sz v 0 (uintsize sz)) = Some e"
  have c: "wrap_unsigned (uintsize sz) (fst (ParseUint sz v 0 (uintsize sz)))
      = fst (ParseUint sz v 0 (uintsize sz))"
    by (rule unsigned_conv [OF native_size(2) [OF assms(1)]])
  from unsigned_fetch_error [OF native_size(2) [OF assms(1)] e] show
    "case GetUint sz key \<E> of (val, ok, err, \<E>') \<Rightarrow>
         ok \<and> err = Some e \<and> \<E>' = \<E>(key := None) \<and>
         ((Err e = ErrSyntax \<and> val = 0) \<or>
          (Err e = ErrRange \<and> val = 2 ^ nat (uintsize sz) - 1))"
    by (simp add: GetUint_char assms(2) e c)
qed

theorem fetch_invalid_integer_witness:
  "((8::int) = 4 \<or> (8::int) = 8) \<and>
   [''COUNT'' \<mapsto> ''notanumber''] ''COUNT'' = Some ''notanumber'' \<and>
   snd (ParseInt 8 ''notanumber'' 0 (intsize 8)) = Some (syntaxError ''ParseInt'' ''notanumber'') \<and>
   GetInt 8 ''COUNT'' [''COUNT'' \<mapsto> ''notanumber''] =
     (0, True, Some (syntaxError ''ParseInt'' ''notanumber''),
      [''COUNT'' \<mapsto> ''notanumber''](''COUNT'' := None)) \<and>
   [''COUNT'' \<mapsto> ''-2147483649''] ''COUNT'' = Some ''-2147483649'' \<and>
   negative ''-2147483649'' \<and>
   snd (ParseInt 8 ''-2147483649'' 0 32) = Some (rangeError ''ParseInt'' ''-2147483649'') \<and>
   GetInt32 8 ''COUNT'' [''COUNT'' \<mapsto> ''-2147483649''] =
     (- 2147483648, True, Some (rangeError ''ParseInt'' ''-2147483649''),
      [''COUNT'' \<mapsto> ''-2147483649''](''COUNT'' := None)) \<and>
   [''COUNT'' \<mapsto> ''2147483648''] ''COUNT'' = Some ''2147483648'' \<and>
   \<not> negative ''2147483648'' \<and>
   snd (ParseInt 8 ''2147483648'' 0 32) = Some (rangeError ''ParseInt'' ''2147483648'') \<and>
   GetInt32 8 ''COUNT'' [''COUNT'' \<mapsto> ''2147483648''] =
     (2147483647, True, Some (rangeError ''ParseInt'' ''2147483648''),
      [''COUNT'' \<mapsto> ''2147483648''](''COUNT'' := None)) \<and>
   [''COUNT'' \<mapsto> ''4294967296''] ''COUNT'' = Some ''4294967296'' \<and>
   snd (ParseUint 8 ''4294967296'' 0 32) = Some (rangeError ''ParseUint'' ''4294967296'') \<and>
   GetUint32 8 ''COUNT'' [''COUNT'' \<mapsto> ''4294967296''] =
     (4294967295, True, Some (rangeError ''ParseUint'' ''4294967296''),
      [''COUNT'' \<mapsto> ''4294967296''](''COUNT'' := None))"
proof -
  have sz: "(8::int) = 4 \<or> (8::int) = 8" by simp
  have h1: "[''COUNT'' \<mapsto> ''notanumber''] ''COUNT'' = Some ''notanumber''" by simp
  have h2: "[''COUNT'' \<mapsto> ''-2147483649''] ''COUNT'' = Some ''-2147483649''" by simp
  have h3: "[''COUNT'' \<mapsto> ''2147483648''] ''COUNT'' = Some ''2147483648''" by simp
  have h4: "[''COUNT'' \<mapsto> ''4294967296''] ''COUNT'' = Some ''4294967296''" by simp
  have p1: "snd (ParseInt 8 ''notanumber'' 0 (intsize 8))
      = Some (syntaxError ''ParseInt'' ''notanumber'')"
    by (simp add: strconv_eval)
  have p2: "snd (ParseInt 8 ''-2147483649'' 0 32) = Some (rangeError ''ParseInt'' ''-2147483649'')"
    by (simp add: strconv_eval)
  have p3: "snd (ParseInt 8 ''2147483648'' 0 32) = Some (rangeError ''ParseInt'' ''2147483648'')"
    by (simp add: strconv_eval)
  have p4: "snd (ParseUint 8 ''4294967296'' 0 32) = Some (rangeError ''ParseUint'' ''4294967296'')"
    by (simp add: strconv_eval)
  have n2: "negative ''-2147483649''" and n3: "\<not> negative ''2147483648''"
    by (simp_all add: negative_def)
  note a = fetch_invalid_integer [OF sz, where \<E> = "[''COUNT'' \<mapsto> ''notanumber'']"
      and key = "''COUNT''" and v = "''notanumber''"
      and e = "syntaxError ''ParseInt'' ''notanumber''", OF h1]
  note b = fetch_invalid_integer [OF sz, where \<E> = "[''COUNT'' \<mapsto> ''-2147483649'']"
      and key = "''COUNT''" and v = "''-2147483649''"
      and e = "rangeError ''ParseInt'' ''-2147483649''", OF h2]
  note c = fetch_invalid_integer [OF sz, where \<E> = "[''COUNT'' \<mapsto> ''2147483648'']"
      and key = "''COUNT''" and v = "''2147483648''"
      and e = "rangeError ''ParseInt'' ''2147483648''", OF h3]
  note d = fetch_invalid_integer [OF sz, where \<E> = "[''COUNT'' \<mapsto> ''4294967296'']"
      and key = "''COUNT''" and v = "''4294967296''"
      and e = "rangeError ''ParseUint'' ''4294967296''", OF h4]
  from a p1 have "GetInt 8 ''COUNT'' [''COUNT'' \<mapsto> ''notanumber''] =
      (0, True, Some (syntaxError ''ParseInt'' ''notanumber''),
       [''COUNT'' \<mapsto> ''notanumber''](''COUNT'' := None))"
    by (auto simp: syntaxError_def split: prod.splits)
  moreover from b p2 n2 have "GetInt32 8 ''COUNT'' [''COUNT'' \<mapsto> ''-2147483649''] =
      (- 2147483648, True, Some (rangeError ''ParseInt'' ''-2147483649''),
       [''COUNT'' \<mapsto> ''-2147483649''](''COUNT'' := None))"
    by (auto simp: rangeError_def split: prod.splits)
  moreover from c p3 n3 have "GetInt32 8 ''COUNT'' [''COUNT'' \<mapsto> ''2147483648''] =
      (2147483647, True, Some (rangeError ''ParseInt'' ''2147483648''),
       [''COUNT'' \<mapsto> ''2147483648''](''COUNT'' := None))"
    by (auto simp: rangeError_def split: prod.splits)
  moreover from d p4 have "GetUint32 8 ''COUNT'' [''COUNT'' \<mapsto> ''4294967296''] =
      (4294967295, True, Some (rangeError ''ParseUint'' ''4294967296''),
       [''COUNT'' \<mapsto> ''4294967296''](''COUNT'' := None))"
    by (auto simp: rangeError_def split: prod.splits)
  ultimately show ?thesis using p1 p2 p3 p4 n2 n3 by simp
qed

text \<open>
  C5. When \<open>key\<close> holds the text \<open>s\<close>, the boolean accessors succeed exactly when \<open>s\<close>
  is one of the six truthy or the six falsy tokens: \<open>GetBool\<close> returns \<open>true\<close> for a
  truthy token and \<open>false\<close> for a falsy one, with no error; \<open>Bool\<close> (in both
  revisions) writes that value to its output; for every other text the error is the
  syntax error of \<open>ParseBool\<close> and \<open>Bool\<close> leaves its output as it was.
\<close>

theorem bool_accessors_accept_twelve_tokens:
  assumes "\<E> key = Some s"
  shows
  "GetBool key \<E> =
     (s \<in> {''1'', ''t'', ''T'', ''TRUE'', ''true'', ''True''}, True,
      (if s \<in> {''1'', ''t'', ''T'', ''TRUE'', ''true'', ''True''} \<union> {''0'', ''f'', ''F'', ''FALSE'', ''false'', ''False''}
       then None else Some (syntaxError ''ParseBool'' s)),
      \<E>(key := None)) \<and>
   Bool out_b key \<E> =
     ((if s \<in> {''1'', ''t'', ''T'', ''TRUE'', ''true'', ''True''} \<union> {''0'', ''f'', ''F'', ''FALSE'', ''false'', ''False''}
       then None else Some (syntaxError ''ParseBool'' s)),
      (if s \<in> {''1'', ''t'', ''T'', ''TRUE'', ''true'', ''True''} then True
       else if s \<in> {''0'', ''f'', ''F'', ''FALSE'', ''false'', ''False''} then False
       else out_b),
      \<E>(key := None)) \<and>
   Bool_mid out_b key \<E> = Bool out_b key \<E>"
  using assms by (simp add: GetBool_char Bool_char Bool_mid_eq ParseBool_def)

theorem bool_accessors_witness:
  "[''FLAG'' \<mapsto> ''true''] ''FLAG'' = Some ''true'' \<and>
   GetBool ''FLAG'' [''FLAG'' \<mapsto> ''true''] = (True, True, None, [''FLAG'' \<mapsto> ''true''](''FLAG'' := None)) \<and>
   [''FLAG'' \<mapsto> ''yes''] ''FLAG'' = Some ''yes'' \<and>
   Bool False ''FLAG'' [''FLAG'' \<mapsto> ''yes''] =
     (Some (syntaxError ''ParseBool'' ''yes''), False, [''FLAG'' \<mapsto> ''yes''](''FLAG'' := None))"
proof -
  have h1: "[''FLAG'' \<mapsto> ''true''] ''FLAG'' = Some ''true''" by simp
  have h2: "[''FLAG'' \<mapsto> ''yes''] ''FLAG'' = Some ''yes''" by simp
  show ?thesis
    using bool_accessors_accept_twelve_tokens [where \<E> = "[''FLAG'' \<mapsto> ''true'']"
        and key = "''FLAG''" and s = "''true''" and out_b = False, OF h1]
      bool_accessors_accept_twelve_tokens [where \<E> = "[''FLAG'' \<mapsto> ''yes'']"
        and key = "''FLAG''" and s = "''yes''" and out_b = False, OF h2]
    by simp
qed

text \<open>
  C6 as stated fails on a digit string with a leading zero: \<^verbatim>\<open>010\<close> has the base-10
  reading 10, and the accessors read it as the octal numeral 8.
\<close>

theorem leading_zero_is_octal_counterexample:
  "[''N'' \<mapsto> ''010''] ''N'' = Some ''010'' \<and>
   decimal_digits ''010'' \<and> decimal ''010'' = 10 \<and>
   Int64 8 0 ''N'' [''N'' \<mapsto> ''010''] = (None, 8, [''N'' \<mapsto> ''010''](''N'' := None)) \<and>
   Uint64 8 0 ''N'' [''N'' \<mapsto> ''010''] = (None, 8, [''N'' \<mapsto> ''010''](''N'' := None))"
  by (simp add: Int64_char Uint64_char strconv_eval decimal_def decimal_digits_def)

text \<open>
  C6, as amended. For every text \<open>s\<close> that an integer accessor reads under \<open>key\<close>: the
  signed accessors accept one leading sign; the radix is 2, 8 or 16 after a prefix
  \<open>0b\<close>, \<open>0o\<close> or \<open>0x\<close> in either case, 8 after any other leading \<open>0\<close>, and 10
  otherwise; underscores placed as \<^verbatim>\<open>underscoreOK\<close> accepts them are skipped. The
  accessor succeeds exactly when \<open>read_int\<close> (\<open>read_uint\<close> for the unsigned accessors)
  gives a number at the accessor's width (32, 64, or the native width for \<open>Int\<close> and
  \<open>Uint\<close>), that is when the text is well formed and its number fits the width, and then
  writes that number; otherwise it returns an error and leaves the output as it was. In
  particular a non-empty string of decimal digits that does not begin with \<open>0\<close>, or is
  \<open>0\<close> itself, is read as its base-10 reading, when that fits the width.
\<close>

theorem integer_accessors_read_numerals:
  assumes "sz = 4 \<or> sz = 8" and "\<E> key = Some s"
  shows
  "(case Int64 sz out_i key \<E> of (err, out, \<E>') \<Rightarrow>
      (case read_int 64 s of
         Some n \<Rightarrow> err = None \<and> out = n
       | None \<Rightarrow> err \<noteq> None \<and> out = out_i)) \<and>
   (case Int32 sz out_i key \<E> of (err, out, \<E>') \<Rightarrow>
      (case read_int 32 s of
         Some n \<Rightarrow> err = None \<and> out = n
       | None \<Rightarrow> err \<noteq> None \<and> out = out_i)) \<and>
   (case Int_native sz out_i key \<E> of (err, out, \<E>') \<Rightarrow>
      (case read_int (intsize sz) s of
         Some n \<Rightarrow> err = None \<and> out = n
       | None \<Rightarrow> err \<noteq> None \<and> out = out_i)) \<and>
   (case Uint64 sz out_u key \<E> of (err, out, \<E>') \<Rightarrow>
      (case read_uint 64 s of
         Some n \<Rightarrow> err = None \<and> out = n
       | None \<Rightarrow> err \<noteq> None \<and> out = out_u)) \<and>
   (case Uint32 sz out_u key \<E> of (err, out, \<E>') \<Rightarrow>
      (case read_uint 32 s of
         Some n \<Rightarrow> err = None \<and> out = n
       | None \<Rightarrow> err \<noteq> None \<and> out = out_u)) \<and>
   (case Uint sz out_u key \<E> of (err, out, \<E>') \<Rightarrow>
      (case read_uint (uintsize sz) s of
         Some n \<Rightarrow> err = None \<and> out = n
       | None \<Rightarrow> err \<noteq> None \<and> out = out_u)) \<and>
   (decimal_digits s \<and> (hd s \<noteq> CHR ''0'' \<or> s = ''0'') \<longrightarrow>
      (decimal s < 2 ^ 63 \<longrightarrow>
         Int64 sz out_i key \<E> = (None, int (decimal s), \<E>(key := None))) \<and>
      (decimal s < 2 ^ 31 \<longrightarrow>
         Int32 sz out_i key \<E> = (None, int (decimal s), \<E>(key := None))) \<and>
      (decimal s < 2 ^ nat (intsize sz - 1) \<longrightarrow>
         Int_native sz out_i key \<E> = (None, int (decimal s), \<E>(key := None))) \<and>
      (decimal s < 2 ^ 64 \<longrightarrow>
         Uint64 sz out_u key \<E> = (None, decimal s, \<E>(key := None))) \<and>
      (decimal s < 2 ^ 32 \<longrightarrow>
         Uint32 sz out_u key \<E> = (None, decimal s, \<E>(key := None))) \<and>
      (decimal s < 2 ^ nat (uintsize sz) \<longrightarrow>
         Uint sz out_u key \<E> = (None, decimal s, \<E>(key := None))))"
proof -
  have b64: "(64::int) = 32 \<or> (64::int) = 64" and b32: "(32::int) = 32 \<or> (32::int) = 64"
    by simp_all
  note bi = native_size(1) [OF assms(1)] and bu = native_size(2) [OF assms(1)]
  note rd = signed_accessor_read [OF b64, where s = s and sz = sz]
    signed_accessor_read [OF b32, where s = s and sz = sz]
    signed_accessor_read [OF bi, where s = s and sz = sz]
    unsigned_accessor_read [OF b64, where s = s and sz = sz]
    unsigned_accessor_read [OF b32, where s = s and sz = sz]
    unsigned_accessor_read [OF bu, where s = s and sz = sz]
  have lt: "int n < 2 ^ k \<longleftrightarrow> n < 2 ^ k" for n k :: nat
    by (metis of_nat_less_iff of_nat_numeral of_nat_power)
  show ?thesis
    using rd
    by (intro conjI impI)
      (simp_all add: Int64_char Int32_char Int_native_char Uint64_char Uint32_char Uint_char
        assms(2) decimal_read_uint decimal_read_int lt split: option.splits)
qed

theorem integer_accessors_witness:
  "((8::int) = 4 \<or> (8::int) = 8) \<and>
   [''PORT'' \<mapsto> ''8080''] ''PORT'' = Some ''8080'' \<and>
   decimal_digits ''8080'' \<and> hd ''8080'' \<noteq> CHR ''0'' \<and> decimal ''8080'' = 8080 \<and>
   Int64 8 0 ''PORT'' [''PORT'' \<mapsto> ''8080'']
     = (None, 8080, [''PORT'' \<mapsto> ''8080''](''PORT'' := None)) \<and>
   Uint32 8 0 ''PORT'' [''PORT'' \<mapsto> ''8080'']
     = (None, 8080, [''PORT'' \<mapsto> ''8080''](''PORT'' := None)) \<and>
   [''MASK'' \<mapsto> ''0x1F''] ''MASK'' = Some ''0x1F'' \<and>
   read_uint 32 ''0x1F'' = Some 31 \<and>
   (case Uint32 8 0 ''MASK'' [''MASK'' \<mapsto> ''0x1F''] of (err, out, \<E>') \<Rightarrow>
      err = None \<and> out = 31) \<and>
   [''N'' \<mapsto> ''-0b101''] ''N'' = Some ''-0b101'' \<and>
   read_int 32 ''-0b101'' = Some (- 5) \<and>
   (case Int32 8 0 ''N'' [''N'' \<mapsto> ''-0b101''] of (err, out, \<E>') \<Rightarrow>
      err = None \<and> out = - 5) \<and>
   [''N'' \<mapsto> ''08''] ''N'' = Some ''08'' \<and>
   read_uint 64 ''08'' = None \<and>
   (case Uint64 8 3 ''N'' [''N'' \<mapsto> ''08''] of (err, out, \<E>') \<Rightarrow>
      err \<noteq> None \<and> out = 3)"
proof -
  have sz: "(8::int) = 4 \<or> (8::int) = 8" by simp
  have h1: "[''PORT'' \<mapsto> ''8080''] ''PORT'' = Some ''8080''" by simp
  have h2: "[''MASK'' \<mapsto> ''0x1F''] ''MASK'' = Some ''0x1F''" by simp
  have h3: "[''N'' \<mapsto> ''-0b101''] ''N'' = Some ''-0b101''" by simp
  have h4: "[''N'' \<mapsto> ''08''] ''N'' = Some ''08''" by simp
  have d: "decimal_digits ''8080''" "hd ''8080'' \<noteq> CHR ''0''" "decimal ''8080'' = 8080"
    by (simp_all add: decimal_digits_def decimal_def byte_def)
  note a = integer_accessors_read_numerals [OF sz,
      where \<E> = "[''PORT'' \<mapsto> ''8080'']" and key = "''PORT''" and s = "''8080''"
        and out_i = 0 and out_u = 0, OF h1]
  note b = integer_accessors_read_numerals [OF sz,
      where \<E> = "[''MASK'' \<mapsto> ''0x1F'']" and key = "''MASK''" and s = "''0x1F''"
        and out_i = 0 and out_u = 0, OF h2]
  note c = integer_accessors_read_numerals [OF sz,
      where \<E> = "[''N'' \<mapsto> ''-0b101'']" and key = "''N''" and s = "''-0b101''"
        and out_i = 0 and out_u = 0, OF h3]
  note e = integer_accessors_read_numerals [OF sz,
      where \<E> = "[''N'' \<mapsto> ''08'']" and key = "''N''" and s = "''08''"
        and out_i = 0 and out_u = 3, OF h4]
  have r2: "read_uint 32 ''0x1F'' = Some 31" by (simp add: numeral_eval byte_def)
  have r3: "read_int 32 ''-0b101'' = Some (- 5)" by (simp add: numeral_eval byte_def)
  have r4: "read_uint 64 ''08'' = None" by (simp add: numeral_eval byte_def)
  from a d have "Int64 8 0 ''PORT'' [''PORT'' \<mapsto> ''8080'']
      = (None, 8080, [''PORT'' \<mapsto> ''8080''](''PORT'' := None))"
    and "Uint32 8 0 ''PORT'' [''PORT'' \<mapsto> ''8080'']
      = (None, 8080, [''PORT'' \<mapsto> ''8080''](''PORT'' := None))"
    by simp_all
  moreover from b r2 have "case Uint32 8 0 ''MASK'' [''MASK'' \<mapsto> ''0x1F''] of
      (err, out, \<E>') \<Rightarrow> err = None \<and> out = 31"
    by simp
  moreover from c r3 have "case Int32 8 0 ''N'' [''N'' \<mapsto> ''-0b101''] of
      (err, out, \<E>') \<Rightarrow> err = None \<and> out = - 5"
    by simp
  moreover from e r4 have "case Uint64 8 3 ''N'' [''N'' \<mapsto> ''08''] of
      (err, out, \<E>') \<Rightarrow> err \<noteq> None \<and> out = 3"
    by simp
  ultimately show ?thesis using d r2 r3 r4 by simp
qed

text \<open>
  C7. A second call of an accessor for the same key, on the environment \<open>\<E>'\<close> that the
  first call left, is the absent case whatever the first call did: it returns no error,
  an assign-style call returns its output reference as it was given (any value \<open>o'\<close>), a
  fetcher reports the zero value and \<open>false\<close>, \<open>Get\<close> returns its default, and the
  environment it returns is \<open>\<E>'\<close> itself, so nothing is removed.
\<close>

theorem second_call_is_absent:
  "(case Get key def \<E> of (r, \<E>') \<Rightarrow> Get key def' \<E>' = (def', \<E>')) \<and>
   (case String out_s key \<E> of (out, \<E>') \<Rightarrow> String out_s' key \<E>' = (out_s', \<E>')) \<and>
   (case Bool out_b key \<E> of (err, out, \<E>') \<Rightarrow> Bool out_b' key \<E>' = (None, out_b', \<E>')) \<and>
   (case Float64 ParseFloat out_f key \<E> of (err, out, \<E>') \<Rightarrow> Float64 ParseFloat out_f' key \<E>' = (None, out_f', \<E>')) \<and>
   (case Float32 ParseFloat float32_conv out_g key \<E> of (err, out, \<E>') \<Rightarrow> Float32 ParseFloat float32_conv out_g' key \<E>' = (None, out_g', \<E>')) \<and>
   (case Int64 sz out_i key \<E> of (err, out, \<E>') \<Rightarrow> Int64 sz out_i' key \<E>' = (None, out_i', \<E>')) \<and>
   (case Int32 sz out_i key \<E> of (err, out, \<E>') \<Rightarrow> Int32 sz out_i' key \<E>' = (None, out_i', \<E>')) \<and>
   (case Int_native sz out_i key \<E> of (err, out, \<E>') \<Rightarrow> Int_native sz out_i' key \<E>' = (None, out_i', \<E>')) \<and>
   (case Uint64 sz out_u key \<E> of (err, out, \<E>') \<Rightarrow> Uint64 sz out_u' key \<E>' = (None, out_u', \<E>')) \<and>
   (case Uint32 sz out_u key \<E> of (err, out, \<E>') \<Rightarrow> Uint32 sz out_u' key \<E>' = (None, out_u', \<E>')) \<and>
   (case Uint sz out_u key \<E> of (err, out, \<E>') \<Rightarrow> Uint sz out_u' key \<E>' = (None, out_u', \<E>')) \<and>
   (case GetString key \<E> of (val, ok, \<E>') \<Rightarrow> GetString key \<E>' = ('''', False, \<E>')) \<and>
   (case GetBool key \<E> of (val, ok, err, \<E>') \<Rightarrow> GetBool key \<E>' = (False, False, None, \<E>')) \<and>
   (case GetFloat64 ParseFloat key \<E> of (val, ok, err, \<E>') \<Rightarrow> GetFloat64 ParseFloat key \<E>' = (0, False, None, \<E>')) \<and>
   (case GetFloat32 ParseFloat float32_conv key \<E> of (val, ok, err, \<E>') \<Rightarrow> GetFloat32 ParseFloat float32_conv key \<E>' = (0, False, None, \<E>')) \<and>
   (case GetInt64 sz key \<E> of (val, ok, err, \<E>') \<Rightarrow> GetInt64 sz key \<E>' = (0, False, None, \<E>')) \<and>
   (case GetInt32 sz key \<E> of (val, ok, err, \<E>') \<Rightarrow> GetInt32 sz key \<E>' = (0, False, None, \<E>')) \<and>
   (case GetInt sz key \<E> of (val, ok, err, \<E>') \<Rightarrow> GetInt sz key \<E>' = (0, False, None, \<E>')) \<and>
   (case GetUint64 sz key \<E> of (val, ok, err, \<E>') \<Rightarrow> GetUint64 sz key \<E>' = (0, False, None, \<E>')) \<and>
   (case GetUint32 sz key \<E> of (val, ok, err, \<E>') \<Rightarrow> GetUint32 sz key \<E>' = (0, False, None, \<E>')) \<and>
   (case GetUint sz key \<E> of (val, ok, err, \<E>') \<Rightarrow> GetUint sz key \<E>' = (0, False, None, \<E>')) \<and>
   (case String_mid out_s key \<E> of (out, \<E>') \<Rightarrow> String_mid out_s' key \<E>' = (out_s', \<E>')) \<and>
   (case Bool_mid out_b key \<E> of (err, out, \<E>') \<Rightarrow> Bool_mid out_b' key \<E>' = (None, out_b', \<E>')) \<and>
   (case Float64_mid ParseFloat out_f key \<E> of (err, out, \<E>') \<Rightarrow> Float64_mid ParseFloat out_f' key \<E>' = (None, out_f', \<E>')) \<and>
   (case Float32_mid ParseFloat float32_conv out_g key \<E> of (err, out, \<E>') \<Rightarrow> Float32_mid ParseFloat float32_conv out_g' key \<E>' = (None, out_g', \<E>')) \<and>
   (case Int64_mid sz out_i key \<E> of (err, out, \<E>') \<Rightarrow> Int64_mid sz out_i' key \<E>' = (None, out_i', \<E>')) \<and>
   (case Int32_mid sz out_i key \<E> of (err, out, \<E>') \<Rightarrow> Int32_mid sz out_i' key \<E>' = (None, out_i', \<E>')) \<and>
   (case Int_native_mid sz out_i key \<E> of (err, out, \<E>') \<Rightarrow> Int_native_mid sz out_i' key \<E>' = (None, out_i', \<E>')) \<and>
   (case Uint64_mid sz out_u key \<E> of (err, out, \<E>') \<Rightarrow> Uint64_mid sz out_u' key \<E>' = (None, out_u', \<E>')) \<and>
   (case Uint32_mid sz out_u key \<E> of (err, out, \<E>') \<Rightarrow> Uint32_mid sz out_u' key \<E>' = (None, out_u', \<E>')) \<and>
   (case Uint_mid sz out_u key \<E> of (err, out, \<E>') \<Rightarrow> Uint_mid sz out_u' key \<E>' = (None, out_u', \<E>'))"
  by (simp add: Get_def LookupEnv_def Unsetenv_def
    String_char Bool_char Float64_char Float32_char Int64_char Int32_char Int_native_char
    Uint64_char Uint32_char Uint_char GetString_char GetBool_char GetFloat64_char
    GetFloat32_char GetInt64_char GetInt32_char GetInt_char GetUint64_char GetUint32_char
    GetUint_char String_mid_eq Bool_mid_eq Float64_mid_eq Float32_mid_eq Int64_mid_eq
    Int32_mid_eq Int_native_mid_eq Uint64_mid_eq Uint32_mid_eq Uint_mid_eq
    split: option.split)

text \<open>
  C8. For every accessor of the three revisions and every name \<open>k\<close>, the environment
  \<open>\<E>'\<close> after a call on \<open>key\<close> has at \<open>k\<close> what the environment before had, except
  that \<open>key\<close> itself is absent. So every entry other than \<open>key\<close> keeps its value, no
  entry is created or updated, and when \<open>key\<close> was absent before, the table is the same
  at every name: the only change there can be is the removal of a present \<open>key\<close>.
\<close>

theorem only_the_key_is_removed:
  "(case Get key def \<E> of (r, \<E>') \<Rightarrow> \<E>' k = (if k = key then None else \<E> k)) \<and>
   (case String out_s key \<E> of (out, \<E>') \<Rightarrow> \<E>' k = (if k = key then None else \<E> k)) \<and>
   (case Bool out_b key \<E> of (err, out, \<E>') \<Rightarrow> \<E>' k = (if k = key then None else \<E> k)) \<and>
   (case Float64 ParseFloat out_f key \<E> of (err, out, \<E>') \<Rightarrow> \<E>' k = (if k = key then None else \<E> k)) \<and>
   (case Float32 ParseFloat float32_conv out_g key \<E> of (err, out, \<E>') \<Rightarrow> \<E>' k = (if k = key then None else \<E> k)) \<and>
   (case Int64 sz out_i key \<E> of (err, out, \<E>') \<Rightarrow> \<E>' k = (if k = key then None else \<E> k)) \<and>
   (case Int32 sz out_i key \<E> of (err, out, \<E>') \<Rightarrow> \<E>' k = (if k = key then None else \<E> k)) \<and>
   (case Int_native sz out_i key \<E> of (err, out, \<E>') \<Rightarrow> \<E>' k = (if k = key then None else \<E> k)) \<and>
   (case Uint64 sz out_u key \<E> of (err, out, \<E>') \<Rightarrow> \<E>' k = (if k = key then None else \<E> k)) \<and>
   (case Uint32 sz out_u key \<E> of (err, out, \<E>') \<Rightarrow> \<E>' k = (if k = key then None else \<E> k)) \<and>
   (case Uint sz out_u key \<E> of (err, out, \<E>') \<Rightarrow> \<E>' k = (if k = key then None else \<E> k)) \<and>
   (case GetString key \<E> of (val, ok, \<E>') \<Rightarrow> \<E>' k = (if k = key then None else \<E> k)) \<and>
   (case GetBool key \<E> of (val, ok, err, \<E>') \<Rightarrow> \<E>' k = (if k = key then None else \<E> k)) \<and>
   (case GetFloat64 ParseFloat key \<E> of (val, ok, err, \<E>') \<Rightarrow> \<E>' k = (if k = key then None else \<E> k)) \<and>
   (case GetFloat32 ParseFloat float32_conv key \<E> of (val, ok, err, \<E>') \<Rightarrow> \<E>' k = (if k = key then None else \<E> k)) \<and>
   (case GetInt64 sz key \<E> of (val, ok, err, \<E>') \<Rightarrow> \<E>' k = (if k = key then None else \<E> k)) \<and>
   (case GetInt32 sz key \<E> of (val, ok, err, \<E>') \<Rightarrow> \<E>' k = (if k = key then None else \<E> k)) \<and>
   (case GetInt sz key \<E> of (val, ok, err, \<E>') \<Rightarrow> \<E>' k = (if k = key then None else \<E> k)) \<and>
   (case GetUint64 sz key \<E> of (val, ok, err, \<E>') \<Rightarrow> \<E>' k = (if k = key then None else \<E> k)) \<and>
   (case GetUint32 sz key \<E> of (val, ok, err, \<E>') \<Rightarrow> \<E>' k = (if k = key then None else \<E> k)) \<and>
   (case GetUint sz key \<E> of (val, ok, err, \<E>') \<Rightarrow> \<E>' k = (if k = key then None else \<E> k)) \<and>
   (case String_mid out_s key \<E> of (out, \<E>') \<Rightarrow> \<E>' k = (if k = key then None else \<E> k)) \<and>
   (case Bool_mid out_b key \<E> of (err, out, \<E>') \<Rightarrow> \<E>' k = (if k = key then None else \<E> k)) \<and>
   (case Float64_mid ParseFloat out_f key \<E> of (err, out, \<E>') \<Rightarrow> \<E>' k = (if k = key then None else \<E> k)) \<and>
   (case Float32_mid ParseFloat float32_conv out_g key \<E> of (err, out, \<E>') \<Rightarrow> \<E>' k = (if k = key then None else \<E> k)) \<and>
   (case Int64_mid sz out_i key \<E> of (err, out, \<E>') \<Rightarrow> \<E>' k = (if k = key then None else \<E> k)) \<and>
   (case Int32_mid sz out_i key \<E> of (err, out, \<E>') \<Rightarrow> \<E>' k = (if k = key then None else \<E> k)) \<and>
   (case Int_native_mid sz out_i key \<E> of (err, out, \<E>') \<Rightarrow> \<E>' k = (if k = key then None else \<E> k)) \<and>
   (case Uint64_mid sz out_u key \<E> of (err, out, \<E>') \<Rightarrow> \<E>' k = (if k = key then None else \<E> k)) \<and>
   (case Uint32_mid sz out_u key \<E> of (err, out, \<E>') \<Rightarrow> \<E>' k = (if k = key then None else \<E> k)) \<and>
   (case Uint_mid sz out_u key \<E> of (err, out, \<E>') \<Rightarrow> \<E>' k = (if k = key then None else \<E> k))"
  by (simp add: Get_def LookupEnv_def Unsetenv_def
    String_char Bool_char Float64_char Float32_char Int64_char Int32_char Int_native_char
    Uint64_char Uint32_char Uint_char GetString_char GetBool_char GetFloat64_char
    GetFloat32_char GetInt64_char GetInt32_char GetInt_char GetUint64_char GetUint32_char
    GetUint_char String_mid_eq Bool_mid_eq Float64_mid_eq Float32_mid_eq Int64_mid_eq
    Int32_mid_eq Int_native_mid_eq Uint64_mid_eq Uint32_mid_eq Uint_mid_eq
    split: option.split)

text \<open>
  C9. Each assign-style function of the final revision returns the same error, the same
  content of its output reference and the same environment as the function of that name
  in the middle revision, which calls the fetcher of its type: for every key, every
  environment and every starting value of the output reference.
\<close>

theorem final_equals_middle_revision:
  "String_mid out_s key \<E> = String out_s key \<E> \<and>
   Bool_mid out_b key \<E> = Bool out_b key \<E> \<and>
   Float64_mid ParseFloat out_f key \<E> = Float64 ParseFloat out_f key \<E> \<and>
   Float32_mid ParseFloat float32_conv out_g key \<E> = Float32 ParseFloat float32_conv out_g key \<E> \<and>
   Int64_mid sz out_i key \<E> = Int64 sz out_i key \<E> \<and>
   Int32_mid sz out_i key \<E> = Int32 sz out_i key \<E> \<and>
   Int_native_mid sz out_i key \<E> = Int_native sz out_i key \<E> \<and>
   Uint64_mid sz out_u key \<E> = Uint64 sz out_u key \<E> \<and>
   Uint32_mid sz out_u key \<E> = Uint32 sz out_u key \<E> \<and>
   Uint_mid sz out_u key \<E> = Uint sz out_u key \<E>"
  by (simp add:
    String_mid_eq Bool_mid_eq Float64_mid_eq Float32_mid_eq Int64_mid_eq Int32_mid_eq
    Int_native_mid_eq Uint64_mid_eq Uint32_mid_eq Uint_mid_eq)

text \<open>
  C10. The first revision's \<open>Get key def\<close> returns \<open>def\<close> and leaves the environment
  unchanged when \<open>key\<close> is absent; when \<open>key\<close> is present it returns the stored value
  and the environment it leaves no longer has \<open>key\<close> (and is otherwise the same). Its
  result type has no error component: it cannot fail.
\<close>

theorem Get_contract:
  "(\<E> key = None \<longrightarrow> Get key def \<E> = (def, \<E>)) \<and>
   (\<forall>v. \<E> key = Some v \<longrightarrow> Get key def \<E> = (v, \<E>(key := None)))"
  by (simp add: Get_def LookupEnv_def Unsetenv_def)

theorem Get_contract_witness:
  "Get ''HOME'' ''dflt'' Map.empty = (''dflt'', Map.empty) \<and>
   Get ''HOME'' ''dflt'' [''HOME'' \<mapsto> ''/root'', ''PORT'' \<mapsto> ''80'']
     = (''/root'', [''PORT'' \<mapsto> ''80''])"
proof -
  have a: "(Map.empty :: environ) ''HOME'' = None" by simp
  have b: "[''HOME'' \<mapsto> ''/root'', ''PORT'' \<mapsto> ''80''] ''HOME'' = Some ''/root''" by simp
  have c: "[''HOME'' \<mapsto> ''/root'', ''PORT'' \<mapsto> ''80''](''HOME'' := None) = [''PORT'' \<mapsto> ''80'']"
    by (rule ext) simp
  from Get_contract [of Map.empty "''HOME''" "''dflt''"] a
  have one: "Get ''HOME'' ''dflt'' Map.empty = (''dflt'', Map.empty)" by blast
  from Get_contract [of "[''HOME'' \<mapsto> ''/root'', ''PORT'' \<mapsto> ''80'']" "''HOME''" "''dflt''"] b
  have "Get ''HOME'' ''dflt'' [''HOME'' \<mapsto> ''/root'', ''PORT'' \<mapsto> ''80'']
          = (''/root'', [''HOME'' \<mapsto> ''/root'', ''PORT'' \<mapsto> ''80''](''HOME'' := None))"
    by blast
  with one c show ?thesis by simp
qed

end
